theory Spec2Isabelle
  imports Complex_Main
begin

section \<open>Numbers, constants and loops\<close>

text \<open>
  The program is TypeScript. Its three coordinate arrays are \<^verbatim>\<open>Float32Array\<close>s, and what
  the loops write into them is computed in IEEE doubles: there every operation rounds
  to a double and every store rounds to a float32, as written out below (\<open>double\<close>,
  \<open>fround\<close>). A number that may be non-finite is a \<open>number\<close>, with \<open>None\<close> for
  \<^verbatim>\<open>Infinity\<close>, \<^verbatim>\<open>-Infinity\<close> and \<^verbatim>\<open>NaN\<close>. In the gesture thresholds and the spatial
  mapper the numbers are reals and the arithmetic is exact; a quotient by zero there (it
  yields an infinity or a NaN in the program, never an exception) is written out with
  \<open>js_div\<close>. Array indices and counts are \<^typ>\<open>nat\<close>.
\<close>

text \<open>\<^verbatim>\<open>constants.ts\<close>\<close>

definition PARTICLE_COUNT :: nat where
  "PARTICLE_COUNT = 5000"

definition SPHERE_RADIUS :: real where
  "SPHERE_RADIUS = 1.5"

definition EXPLOSION_RADIUS :: real where
  "EXPLOSION_RADIUS = 8.0"

definition COLOR_CORE :: nat where
  "COLOR_CORE = 0x8b5cf6"

definition PINCH_THRESHOLD :: real where
  "PINCH_THRESHOLD = 0.08"

text \<open>
  A quotient of two finite numbers: \<open>None\<close> stands for the non-finite value
  (\<^verbatim>\<open>Infinity\<close>, \<^verbatim>\<open>-Infinity\<close> or \<^verbatim>\<open>NaN\<close>) that the program gets from a zero divisor.
\<close>

definition js_div :: "real \<Rightarrow> real \<Rightarrow> real option" where
  "js_div a b = (if b = 0 then None else Some (a / b))"

subsection \<open>IEEE rounding\<close>

text \<open>
  Rounding to the nearest value of a binary format with \<open>p\<close> significant bits and
  exponents from \<open>emin\<close> to \<open>emax\<close>, ties to the even significand: \<open>ulp\<close> is the
  spacing of the format's values around \<open>x\<close> (that of the subnormal values below
  \<open>2 powi emin\<close>), and a result of magnitude \<open>2 powi (emax + 1)\<close> or more is an infinity.
\<close>

type_synonym number = "real option"

definition round_even :: "real \<Rightarrow> int" where
  "round_even y =
     (let n = \<lfloor>y\<rfloor>
      in if y - of_int n < 1 / 2 then n
         else if y - of_int n > 1 / 2 then n + 1
         else if even n then n else n + 1)"

definition ulp :: "nat \<Rightarrow> int \<Rightarrow> real \<Rightarrow> real" where
  "ulp p emin x = 2 powi (max \<lfloor>log 2 \<bar>x\<bar>\<rfloor> emin - int p + 1)"

definition round_to :: "nat \<Rightarrow> int \<Rightarrow> int \<Rightarrow> real \<Rightarrow> number" where
  "round_to p emin emax x =
     (if x = 0 then Some 0
      else (let y = of_int (round_even (x / ulp p emin x)) * ulp p emin x
            in if 2 powi (emax + 1) \<le> \<bar>y\<bar> then None else Some y))"

text \<open>The double nearest a real, and the float32 nearest a real (\<^verbatim>\<open>Math.fround\<close>).\<close>

definition double :: "real \<Rightarrow> number" where
  "double = round_to 53 (- 1022) 1023"

definition fround :: "real \<Rightarrow> number" where
  "fround = round_to 24 (- 126) 127"

text \<open>
  The operators \<^verbatim>\<open>+\<close>, \<^verbatim>\<open>-\<close> and \<^verbatim>\<open>*\<close> on numbers: a non-finite operand gives a
  non-finite result (\<^verbatim>\<open>Infinity * 0\<close> and \<^verbatim>\<open>Infinity - Infinity\<close> are \<^verbatim>\<open>NaN\<close>). The
  quotient of two finite numbers. The store into a \<^verbatim>\<open>Float32Array\<close>, and the read from
  one: an index out of range reads \<^verbatim>\<open>undefined\<close>, which is \<^verbatim>\<open>NaN\<close> in arithmetic.
\<close>

definition js_add :: "number \<Rightarrow> number \<Rightarrow> number" where
  "js_add a b =
     (case a of None \<Rightarrow> None | Some x \<Rightarrow> (case b of None \<Rightarrow> None | Some y \<Rightarrow> double (x + y)))"

definition js_sub :: "number \<Rightarrow> number \<Rightarrow> number" where
  "js_sub a b =
     (case a of None \<Rightarrow> None | Some x \<Rightarrow> (case b of None \<Rightarrow> None | Some y \<Rightarrow> double (x - y)))"

definition js_mul :: "number \<Rightarrow> number \<Rightarrow> number" where
  "js_mul a b =
     (case a of None \<Rightarrow> None | Some x \<Rightarrow> (case b of None \<Rightarrow> None | Some y \<Rightarrow> double (x * y)))"

definition js_quot :: "real \<Rightarrow> real \<Rightarrow> number" where
  "js_quot x y = (if y = 0 then None else double (x / y))"

definition f32 :: "number \<Rightarrow> number" where
  "f32 v = (case v of None \<Rightarrow> None | Some x \<Rightarrow> fround x)"

definition array_get :: "number list \<Rightarrow> nat \<Rightarrow> number" where
  "array_get a k = (if k < length a then a ! k else None)"

text \<open>
  \<^verbatim>\<open>Math.PI\<close> is the double nearest \<open>\<pi>\<close>. \<^verbatim>\<open>Math.sqrt\<close> rounds correctly. ECMAScript
  leaves the accuracy of \<^verbatim>\<open>Math.sin\<close>, \<^verbatim>\<open>Math.cos\<close> and \<^verbatim>\<open>Math.acos\<close> to the engine;
  they are taken here as correctly rounded too. Outside its domain a function is
  \<^verbatim>\<open>NaN\<close>.
\<close>

definition Math_PI :: number where
  "Math_PI = double pi"

definition Math_sqrt :: "number \<Rightarrow> number" where
  "Math_sqrt v = (case v of None \<Rightarrow> None | Some x \<Rightarrow> if x < 0 then None else double (sqrt x))"

definition Math_sin :: "number \<Rightarrow> number" where
  "Math_sin v = (case v of None \<Rightarrow> None | Some x \<Rightarrow> double (sin x))"

definition Math_cos :: "number \<Rightarrow> number" where
  "Math_cos v = (case v of None \<Rightarrow> None | Some x \<Rightarrow> double (cos x))"

definition Math_acos :: "number \<Rightarrow> number" where
  "Math_acos v =
     (case v of None \<Rightarrow> None
      | Some x \<Rightarrow> if - 1 \<le> x \<and> x \<le> 1 then double (arccos x) else None)"

text \<open>
  \<^verbatim>\<open>for (let i = i0; i < n; i++) body(i)\<close> over a state: the loops of
  \<^verbatim>\<open>initParticles\<close> and \<^verbatim>\<open>animate\<close>.
\<close>

function for_loop :: "nat \<Rightarrow> nat \<Rightarrow> (nat \<Rightarrow> 'a \<Rightarrow> 'a) \<Rightarrow> 'a \<Rightarrow> 'a" where
  "for_loop n i body st = (if i < n then for_loop n (Suc i) body (body i st) else st)"
  by pat_completeness auto
termination
  by (relation "measure (\<lambda>(n, i, body, st). n - i)") auto

declare for_loop.simps [simp del]

section \<open>The parts of three.js that the scene controller calls\<close>

text \<open>
  Modelled from the spec: three.js is a dependency and not under \<^verbatim>\<open>src/\<close>. The spec's
  Spatial Mapper "unprojects through the camera's inverse projection"; the vector and
  matrix operations below are the ones \<^verbatim>\<open>updateHandPosition\<close> calls, with the
  meaning three.js gives them. \<^verbatim>\<open>Vector3\<close> has the fields \<^verbatim>\<open>x\<close>, \<^verbatim>\<open>y\<close>, \<^verbatim>\<open>z\<close>.
\<close>

record Vector3 =
  vx :: real
  vy :: real
  vz :: real

definition Vector3_set :: "real \<Rightarrow> real \<Rightarrow> real \<Rightarrow> Vector3" where
  "Vector3_set a b c = \<lparr>vx = a, vy = b, vz = c\<rparr>"

definition Vector3_sub :: "Vector3 \<Rightarrow> Vector3 \<Rightarrow> Vector3" where
  "Vector3_sub v w = \<lparr>vx = vx v - vx w, vy = vy v - vy w, vz = vz v - vz w\<rparr>"

definition Vector3_add :: "Vector3 \<Rightarrow> Vector3 \<Rightarrow> Vector3" where
  "Vector3_add v w = \<lparr>vx = vx v + vx w, vy = vy v + vy w, vz = vz v + vz w\<rparr>"

definition multiplyScalar :: "Vector3 \<Rightarrow> real \<Rightarrow> Vector3" where
  "multiplyScalar v s = \<lparr>vx = vx v * s, vy = vy v * s, vz = vz v * s\<rparr>"

definition divideScalar :: "Vector3 \<Rightarrow> real \<Rightarrow> Vector3" where
  "divideScalar v s = multiplyScalar v (1 / s)"

definition Vector3_length :: "Vector3 \<Rightarrow> real" where
  "Vector3_length v = sqrt (vx v * vx v + vy v * vy v + vz v * vz v)"

text \<open>\<^verbatim>\<open>normalize() { return this.divideScalar( this.length() || 1 ); }\<close>\<close>

definition normalize :: "Vector3 \<Rightarrow> Vector3" where
  "normalize v = divideScalar v (if Vector3_length v = 0 then 1 else Vector3_length v)"

text \<open>
  A \<^verbatim>\<open>Matrix4\<close> is its 16 \<^verbatim>\<open>elements\<close> in column-major order. \<^verbatim>\<open>applyMatrix4\<close>
  multiplies the point \<open>(x, y, z, 1)\<close> and divides by the fourth component; the result
  is \<open>None\<close> when that component is zero (the program then holds non-finite numbers).
\<close>

type_synonym Matrix4 = "real list"

definition applyMatrix4 :: "Vector3 \<Rightarrow> Matrix4 \<Rightarrow> Vector3 option" where
  "applyMatrix4 v e =
     (case js_div 1 (e ! 3 * vx v + e ! 7 * vy v + e ! 11 * vz v + e ! 15) of
        None \<Rightarrow> None
      | Some w \<Rightarrow> Some
          \<lparr>vx = (e ! 0 * vx v + e ! 4 * vy v + e ! 8 * vz v + e ! 12) * w,
           vy = (e ! 1 * vx v + e ! 5 * vy v + e ! 9 * vz v + e ! 13) * w,
           vz = (e ! 2 * vx v + e ! 6 * vy v + e ! 10 * vz v + e ! 14) * w\<rparr>)"

definition Matrix4_identity :: Matrix4 where
  "Matrix4_identity = [1, 0, 0, 0,  0, 1, 0, 0,  0, 0, 1, 0,  0, 0, 0, 1]"

definition Matrix4_multiply :: "Matrix4 \<Rightarrow> Matrix4 \<Rightarrow> Matrix4" where
  "Matrix4_multiply a b =
     map (\<lambda>k. a ! (k mod 4) * b ! (4 * (k div 4))
             + a ! (k mod 4 + 4) * b ! (4 * (k div 4) + 1)
             + a ! (k mod 4 + 8) * b ! (4 * (k div 4) + 2)
             + a ! (k mod 4 + 12) * b ! (4 * (k div 4) + 3)) [0..<16]"

text \<open>
  \<^verbatim>\<open>makePerspective(left, right, top, bottom, near, far)\<close>, the projection matrix of a
  frustum, and the matrix three.js gets by inverting it (\<open>perspective_inverse\<close>
  below shows that it is the inverse on both sides).
\<close>

definition makePerspective :: "real \<Rightarrow> real \<Rightarrow> real \<Rightarrow> real \<Rightarrow> real \<Rightarrow> real \<Rightarrow> Matrix4" where
  "makePerspective l r t b n f =
     (let x = 2 * n / (r - l);
          y = 2 * n / (t - b);
          a = (r + l) / (r - l);
          b' = (t + b) / (t - b);
          c = - (f + n) / (f - n);
          d = (- 2 * f * n) / (f - n)
      in [x, 0, 0, 0,  0, y, 0, 0,  a, b', c, - 1,  0, 0, d, 0])"

definition makePerspectiveInverse :: "real \<Rightarrow> real \<Rightarrow> real \<Rightarrow> real \<Rightarrow> real \<Rightarrow> real \<Rightarrow> Matrix4" where
  "makePerspectiveInverse l r t b n f =
     (let x = 2 * n / (r - l);
          y = 2 * n / (t - b);
          a = (r + l) / (r - l);
          b' = (t + b) / (t - b);
          c = - (f + n) / (f - n);
          d = (- 2 * f * n) / (f - n)
      in [1 / x, 0, 0, 0,  0, 1 / y, 0, 0,  0, 0, 0, 1 / d,  a / x, b' / y, - 1, c / d])"

text \<open>
  The world matrix of an object that is never rotated or scaled: the translation by its
  position.
\<close>

definition makeTranslation :: "Vector3 \<Rightarrow> Matrix4" where
  "makeTranslation p = [1, 0, 0, 0,  0, 1, 0, 0,  0, 0, 1, 0,  vx p, vy p, vz p, 1]"

record PerspectiveCamera =
  fov :: real
  aspect :: real
  near :: real
  far :: real
  cam_position :: Vector3
  projectionMatrix :: Matrix4
  projectionMatrixInverse :: Matrix4
  matrixWorld :: Matrix4

text \<open>
  \<^verbatim>\<open>updateProjectionMatrix\<close>, with the camera's \<^verbatim>\<open>zoom\<close> at its default 1 and no view
  offset: \<^verbatim>\<open>top = near * Math.tan(DEG2RAD * 0.5 * fov)\<close>.
\<close>

definition updateProjectionMatrix :: "PerspectiveCamera \<Rightarrow> PerspectiveCamera" where
  "updateProjectionMatrix cam =
     (let top' = near cam * tan (pi / 180 * 0.5 * fov cam);
          height = 2 * top';
          width = aspect cam * height;
          left = - 0.5 * width
      in cam\<lparr>projectionMatrix :=
                 makePerspective left (left + width) top' (top' - height) (near cam) (far cam),
              projectionMatrixInverse :=
                 makePerspectiveInverse left (left + width) top' (top' - height) (near cam) (far cam)\<rparr>)"

definition new_PerspectiveCamera :: "real \<Rightarrow> real \<Rightarrow> real \<Rightarrow> real \<Rightarrow> PerspectiveCamera" where
  "new_PerspectiveCamera f a n fa =
     updateProjectionMatrix
       \<lparr>fov = f, aspect = a, near = n, far = fa,
        cam_position = \<lparr>vx = 0, vy = 0, vz = 0\<rparr>,
        projectionMatrix = Matrix4_identity,
        projectionMatrixInverse = Matrix4_identity,
        matrixWorld = Matrix4_identity\<rparr>"

text \<open>The renderer brings the camera's world matrix up to date whenever it renders.\<close>

definition updateMatrixWorld :: "PerspectiveCamera \<Rightarrow> PerspectiveCamera" where
  "updateMatrixWorld cam = cam\<lparr>matrixWorld := makeTranslation (cam_position cam)\<rparr>"

text \<open>
  \<^verbatim>\<open>unproject(camera)\<close> is
  \<^verbatim>\<open>applyMatrix4(camera.projectionMatrixInverse).applyMatrix4(camera.matrixWorld)\<close>.
\<close>

definition unproject :: "Vector3 \<Rightarrow> PerspectiveCamera \<Rightarrow> Vector3 option" where
  "unproject v cam =
     (case applyMatrix4 v (projectionMatrixInverse cam) of
        None \<Rightarrow> None
      | Some p \<Rightarrow> applyMatrix4 p (matrixWorld cam))"

section \<open>SceneController.ts\<close>

text \<open>
  What the controller asks of its host (the tween library, the window, the renderer) is
  kept as a log of calls, in the order they are made.
\<close>

datatype effect =
    GsapToPosition Vector3
  | GsapToPositionNonFinite
  | GsapToFactor real real string
  | GsapToBloom real real string
  | AddResizeListener
  | RemoveResizeListener
  | CancelAnimationFrame nat
  | RendererDispose
  | ComposerRender

text \<open>
  The particle cloud \<^verbatim>\<open>THREE.Points\<close>: the fields of it that the controller writes. Its
  geometry's position attribute is the array \<^verbatim>\<open>currentPositions\<close> itself (one shared
  \<^verbatim>\<open>Float32Array\<close>), so the controller's field stands for both.
\<close>

record Points =
  rotation_y :: real
  rotation_z :: real
  material_color :: nat
  needsUpdate :: bool

record SceneController =
  camera :: PerspectiveCamera
  particles :: "Points option"
  spherePositions :: "number list"
  explosionPositions :: "number list"
  currentPositions :: "number list"
  explosionFactor :: real
  frameId :: "nat option"
  effects :: "effect list"

text \<open>
  One round of the loop of \<^verbatim>\<open>initParticles\<close>, for the particle count \<open>n\<close> and the radii
  \<open>R\<close> and \<open>E\<close> (the program has \<open>PARTICLE_COUNT\<close>, \<open>SPHERE_RADIUS\<close> and
  \<open>EXPLOSION_RADIUS\<close> there). \<open>random\<close> lists the values \<^verbatim>\<open>Math.random()\<close> returns, in
  call order; the loop state carries the number of calls made so far. The counter
  \<open>i\<close> and the count \<open>n\<close> are integers that index an array, for which \<^verbatim>\<open>2 * i\<close> is
  exact.
\<close>

definition initParticles_body ::
  "nat \<Rightarrow> real \<Rightarrow> real \<Rightarrow> (nat \<Rightarrow> real) \<Rightarrow> nat \<Rightarrow> SceneController \<times> nat \<Rightarrow> SceneController \<times> nat" where
  "initParticles_body n R E random i = (\<lambda>(s, calls).
     let i3 = i * 3;
         phi = Math_acos (js_add (Some (- 1)) (js_quot (real (2 * i)) (real n)));
         theta = js_mul (Math_sqrt (js_mul (Some (real n)) Math_PI)) phi;
         sx = js_mul (js_mul (Some R) (Math_cos theta)) (Math_sin phi);
         sy = js_mul (js_mul (Some R) (Math_sin theta)) (Math_sin phi);
         sz = js_mul (Some R) (Math_cos phi);
         u = Some (random calls);
         v = Some (random (calls + 1));
         thetaR = js_mul (js_mul (Some 2) Math_PI) u;
         phiR = Math_acos (js_sub (js_mul (Some 2) v) (Some 1));
         r = js_add (Some R) (js_mul (Some (random (calls + 2))) (js_sub (Some E) (Some R)))
     in (s\<lparr>spherePositions := (spherePositions s)
             [i3 := f32 sx, i3 + 1 := f32 sy, i3 + 2 := f32 sz],
           explosionPositions := (explosionPositions s)
             [i3 := f32 (js_mul (js_mul r (Math_sin phiR)) (Math_cos thetaR)),
              i3 + 1 := f32 (js_mul (js_mul r (Math_sin phiR)) (Math_sin thetaR)),
              i3 + 2 := f32 (js_mul r (Math_cos phiR))],
           currentPositions := (currentPositions s)
             [i3 := f32 sx, i3 + 1 := f32 sy, i3 + 2 := f32 sz]\<rparr>,
         calls + 3))"

definition initParticles_loop ::
  "nat \<Rightarrow> real \<Rightarrow> real \<Rightarrow> (nat \<Rightarrow> real) \<Rightarrow> SceneController \<Rightarrow> SceneController" where
  "initParticles_loop n R E random s = fst (for_loop n 0 (initParticles_body n R E random) (s, 0))"

definition initParticles :: "(nat \<Rightarrow> real) \<Rightarrow> SceneController \<Rightarrow> SceneController" where
  "initParticles random s =
     (initParticles_loop PARTICLE_COUNT SPHERE_RADIUS EXPLOSION_RADIUS random s)
       \<lparr>particles := Some \<lparr>rotation_y = 0, rotation_z = 0,
                            material_color = COLOR_CORE, needsUpdate = False\<rparr>\<rparr>"

text \<open>
  \<^verbatim>\<open>updateHandPosition\<close>: the world point \<open>pos\<close> it computes for the camera, \<open>None\<close> when
  a divisor is zero and the program's \<open>pos\<close> holds non-finite numbers.
\<close>

definition hand_ray :: "PerspectiveCamera \<Rightarrow> real \<Rightarrow> real \<Rightarrow> Vector3 option" where
  "hand_ray cam x y =
     (case unproject (Vector3_set ((x * 2) - 1) (- (y * 2) + 1) 0.5) cam of
        None \<Rightarrow> None
      | Some vec \<Rightarrow> Some (normalize (Vector3_sub vec (cam_position cam))))"

definition hand_pos :: "PerspectiveCamera \<Rightarrow> real \<Rightarrow> real \<Rightarrow> Vector3 option" where
  "hand_pos cam x y =
     (case hand_ray cam x y of
        None \<Rightarrow> None
      | Some vec \<Rightarrow>
          (case js_div (- vz (cam_position cam)) (vz vec) of
             None \<Rightarrow> None
           | Some distance \<Rightarrow>
               Some (Vector3_add (cam_position cam) (multiplyScalar vec distance))))"

definition updateHandPosition :: "SceneController \<Rightarrow> real \<Rightarrow> real \<Rightarrow> SceneController" where
  "updateHandPosition s x y =
     (case particles s of
        None \<Rightarrow> s
      | Some p \<Rightarrow>
          (case hand_pos (camera s) x y of
             None \<Rightarrow> s\<lparr>effects := effects s @ [GsapToPositionNonFinite]\<rparr>
           | Some pos \<Rightarrow> s\<lparr>effects := effects s @ [GsapToPosition pos]\<rparr>))"

definition triggerExplosion :: "SceneController \<Rightarrow> SceneController" where
  "triggerExplosion s =
     s\<lparr>effects := effects s @
         [GsapToFactor 1 0.8 ''power2.out'', GsapToBloom 2 0.8 ''power2.out'']\<rparr>"

definition triggerAssembly :: "SceneController \<Rightarrow> SceneController" where
  "triggerAssembly s =
     s\<lparr>effects := effects s @
         [GsapToFactor 0 0.6 ''power2.inOut'', GsapToBloom 1 0.6 ''power2.inOut'']\<rparr>"

text \<open>\<^verbatim>\<open>handleResize\<close>, for the new ratio \<^verbatim>\<open>window.innerWidth / window.innerHeight\<close>.\<close>

definition handleResize :: "real \<Rightarrow> SceneController \<Rightarrow> SceneController" where
  "handleResize ratio s = s\<lparr>camera := updateProjectionMatrix ((camera s)\<lparr>aspect := ratio\<rparr>)\<rparr>"

text \<open>
  \<^verbatim>\<open>composer.render()\<close>: the render pass renders the scene, which brings the camera's
  world matrix up to date.
\<close>

definition composer_render :: "SceneController \<Rightarrow> SceneController" where
  "composer_render s =
     s\<lparr>camera := updateMatrixWorld (camera s), effects := effects s @ [ComposerRender]\<rparr>"

text \<open>The loop of \<^verbatim>\<open>animate\<close> over the particles, and one round of it.\<close>

definition animate_body :: "real \<Rightarrow> nat \<Rightarrow> SceneController \<Rightarrow> SceneController" where
  "animate_body factor i s =
     (let i3 = i * 3
      in s\<lparr>currentPositions := (currentPositions s)
            [i3 := f32 (js_add
                (js_mul (array_get (spherePositions s) i3) (js_sub (Some 1) (Some factor)))
                (js_mul (array_get (explosionPositions s) i3) (Some factor))),
             i3 + 1 := f32 (js_add
                (js_mul (array_get (spherePositions s) (i3 + 1)) (js_sub (Some 1) (Some factor)))
                (js_mul (array_get (explosionPositions s) (i3 + 1)) (Some factor))),
             i3 + 2 := f32 (js_add
                (js_mul (array_get (spherePositions s) (i3 + 2)) (js_sub (Some 1) (Some factor)))
                (js_mul (array_get (explosionPositions s) (i3 + 2)) (Some factor)))]\<rparr>)"

definition animate_positions :: "nat \<Rightarrow> real \<Rightarrow> SceneController \<Rightarrow> SceneController" where
  "animate_positions n factor s = for_loop n 0 (animate_body factor) s"

text \<open>
  \<^verbatim>\<open>animate\<close>, one frame; \<open>rafId\<close> is the handle \<^verbatim>\<open>requestAnimationFrame\<close> returns. The
  tween library changes \<^verbatim>\<open>explosionFactor.value\<close>, a finite double, between frames; a
  frame reads it.
\<close>

definition animate :: "nat \<Rightarrow> SceneController \<Rightarrow> SceneController" where
  "animate rafId s =
     (let s1 = s\<lparr>frameId := Some rafId\<rparr>
      in composer_render
        (case particles s1 of
           None \<Rightarrow> s1
         | Some p \<Rightarrow>
            (let p1 = p\<lparr>rotation_y := rotation_y p + 0.002, rotation_z := rotation_z p + 0.001\<rparr>;
                 factor = explosionFactor s1;
                 s2 = animate_positions PARTICLE_COUNT factor s1;
                 p2 = p1\<lparr>needsUpdate := True\<rparr>;
                 p3 = (if factor > 0.5 then p2\<lparr>material_color := 0xe879f9\<rparr>
                       else p2\<lparr>material_color := 0x8b5cf6\<rparr>)
             in s2\<lparr>particles := Some p3\<rparr>)))"

text \<open>
  \<^verbatim>\<open>cleanup\<close>. \<^verbatim>\<open>if (this.frameId)\<close> is false for \<^verbatim>\<open>null\<close> and for the number 0.
\<close>

definition cleanup :: "SceneController \<Rightarrow> SceneController" where
  "cleanup s =
     (let s1 = (case frameId s of
                  None \<Rightarrow> s
                | Some fid \<Rightarrow>
                    if fid \<noteq> 0 then s\<lparr>effects := effects s @ [CancelAnimationFrame fid]\<rparr> else s);
          s2 = s1\<lparr>effects := effects s1 @ [RemoveResizeListener]\<rparr>
      in s2\<lparr>effects := effects s2 @ [RendererDispose]\<rparr>)"

text \<open>
  The constructor, for the window's ratio \<^verbatim>\<open>innerWidth / innerHeight\<close>: the camera
  \<^verbatim>\<open>new THREE.PerspectiveCamera(75, ratio, 0.1, 100)\<close> moved to \<open>z = 8\<close>, the three
  zero-filled arrays, the particles, the resize listener and the first frame. The lights
  of \<^verbatim>\<open>initLighting\<close> and the renderer's settings touch nothing that is modelled here.
\<close>

definition scene_camera :: "real \<Rightarrow> PerspectiveCamera" where
  "scene_camera ratio =
     (new_PerspectiveCamera 75 ratio 0.1 100)\<lparr>cam_position := \<lparr>vx = 0, vy = 0, vz = 8\<rparr>\<rparr>"

definition new_SceneController :: "real \<Rightarrow> (nat \<Rightarrow> real) \<Rightarrow> nat \<Rightarrow> SceneController" where
  "new_SceneController ratio random rafId =
     (let s0 = \<lparr>camera = scene_camera ratio,
                particles = None,
                spherePositions = replicate (PARTICLE_COUNT * 3) (Some 0),
                explosionPositions = replicate (PARTICLE_COUNT * 3) (Some 0),
                currentPositions = replicate (PARTICLE_COUNT * 3) (Some 0),
                explosionFactor = 0,
                frameId = None,
                effects = []\<rparr>;
          s1 = initParticles random s0;
          s2 = s1\<lparr>effects := effects s1 @ [AddResizeListener]\<rparr>
      in animate rafId s2)"

section \<open>types.ts and visionService.ts\<close>

text \<open>A landmark has the fields \<^verbatim>\<open>x\<close>, \<^verbatim>\<open>y\<close> and \<^verbatim>\<open>z\<close>.\<close>

record HandLandmark =
  lm_x :: real
  lm_y :: real
  lm_z :: real

record Category =
  categoryName :: string
  score :: real

text \<open>
  What the recognizer returns: the landmarks of each hand, and the gesture categories of
  each hand.
\<close>

record GestureRecognizerResult =
  landmarks :: "HandLandmark list list"
  gestures :: "Category list list"

datatype ParticleState = SPHERE | EXPLODED

text \<open>
  The video element as \<^verbatim>\<open>detect\<close> sees it: its \<^verbatim>\<open>currentTime\<close>, and \<open>recognized\<close>,
  the result the recognizer gives for the frame it shows.
\<close>

record HTMLVideoElement =
  currentTime :: real
  recognized :: GestureRecognizerResult

text \<open>
  \<^verbatim>\<open>gestureRecognizer\<close> is \<^verbatim>\<open>null\<close> until \<^verbatim>\<open>initialize\<close> has loaded it. \<open>recognizeCalls\<close>
  logs the timestamps of the frames handed to \<^verbatim>\<open>recognizeForVideo\<close>.
\<close>

record VisionService =
  gestureRecognizer :: bool
  lastVideoTime :: real
  recognizeCalls :: "real list"

definition new_VisionService :: VisionService where
  "new_VisionService = \<lparr>gestureRecognizer = False, lastVideoTime = - 1, recognizeCalls = []\<rparr>"

definition initialize :: "VisionService \<Rightarrow> VisionService" where
  "initialize vs = (if gestureRecognizer vs then vs else vs\<lparr>gestureRecognizer := True\<rparr>)"

definition detect ::
  "VisionService \<Rightarrow> HTMLVideoElement \<Rightarrow> GestureRecognizerResult option \<times> VisionService" where
  "detect vs video =
     (if \<not> gestureRecognizer vs then (None, vs)
      else if currentTime video \<noteq> lastVideoTime vs then
        (Some (recognized video),
         vs\<lparr>lastVideoTime := currentTime video,
            recognizeCalls := recognizeCalls vs @ [currentTime video]\<rparr>)
      else (None, vs))"

text \<open>The calls of \<^verbatim>\<open>detect\<close> over the frames a video element shows, one after another.\<close>

fun detect_frames :: "VisionService \<Rightarrow> HTMLVideoElement list \<Rightarrow> VisionService" where
  "detect_frames vs [] = vs"
| "detect_frames vs (video # videos) = detect_frames (snd (detect vs video)) videos"

section \<open>App.tsx\<close>

text \<open>
  Reading a field of \<^verbatim>\<open>undefined\<close> throws; \<^verbatim>\<open>landmarks[9].x\<close> does so when the hand has
  fewer than ten landmarks.
\<close>

datatype error = TypeError

record App =
  particleStateRef :: ParticleState
  particleState :: ParticleState
  debugText :: string
  sceneControllerRef :: "SceneController option"
  requestRef :: "nat option"
  visionService :: VisionService
  cancelledFrames :: "nat list"

definition new_App :: App where
  "new_App = \<lparr>particleStateRef = SPHERE, particleState = SPHERE, debugText = [],
              sceneControllerRef = None, requestRef = None,
              visionService = new_VisionService, cancelledFrames = []\<rparr>"

text \<open>The two local values \<^verbatim>\<open>distance\<close> and \<^verbatim>\<open>isOpenPalm\<close> of \<^verbatim>\<open>predictWebcam\<close>.\<close>

definition pinch_distance :: "HandLandmark list \<Rightarrow> real" where
  "pinch_distance lms =
     (let thumbTip = lms ! 4;
          indexTip = lms ! 8
      in sqrt ((lm_x thumbTip - lm_x indexTip) ^ 2 + (lm_y thumbTip - lm_y indexTip) ^ 2))"

definition isOpenPalm :: "GestureRecognizerResult \<Rightarrow> bool" where
  "isOpenPalm results =
     (let detectedGestures = (if length (gestures results) > 0 then gestures results ! 0 else [])
      in list_ex (\<lambda>g. categoryName g = ''Open_Palm'' \<and> score g > 0.5) detectedGestures)"

text \<open>
  \<^verbatim>\<open>predictWebcam\<close>, one callback: \<open>videoCurrent\<close> is \<^verbatim>\<open>videoRef.current\<close> and \<open>rafId\<close>
  the handle of the next callback it requests.
\<close>

definition predictWebcam :: "App \<Rightarrow> HTMLVideoElement option \<Rightarrow> nat \<Rightarrow> error + App" where
  "predictWebcam app videoCurrent rafId =
     (case videoCurrent of
        None \<Rightarrow> Inr app
      | Some video \<Rightarrow>
     (case sceneControllerRef app of
        None \<Rightarrow> Inr app
      | Some sc \<Rightarrow>
     (let results = fst (detect (visionService app) video);
          app1 = app\<lparr>visionService := snd (detect (visionService app) video)\<rparr>
      in case results of
        None \<Rightarrow> Inr (app1\<lparr>debugText := ''No Hand Detected'', requestRef := Some rafId\<rparr>)
      | Some res \<Rightarrow>
          if length (landmarks res) > 0 then
            (let lms = landmarks res ! 0
             in if length lms \<le> 9 then Inl TypeError
                else
                 (let handX = lm_x (lms ! 9);
                      handY = lm_y (lms ! 9);
                      sc1 = updateHandPosition sc handX handY;
                      distance = pinch_distance lms;
                      app2 =
                        (if distance < PINCH_THRESHOLD then
                           (if particleStateRef app1 \<noteq> SPHERE then
                              app1\<lparr>particleStateRef := SPHERE,
                                   particleState := SPHERE,
                                   sceneControllerRef := Some (triggerAssembly sc1)\<rparr>
                            else app1\<lparr>sceneControllerRef := Some sc1\<rparr>)
                           \<lparr>debugText := ''Gesture: Pinch (Create)''\<rparr>
                         else if isOpenPalm res \<or> distance > 0.2 then
                           (if particleStateRef app1 \<noteq> EXPLODED then
                              app1\<lparr>particleStateRef := EXPLODED,
                                   particleState := EXPLODED,
                                   sceneControllerRef := Some (triggerExplosion sc1)\<rparr>
                            else app1\<lparr>sceneControllerRef := Some sc1\<rparr>)
                           \<lparr>debugText := ''Gesture: Open Palm (Explode)''\<rparr>
                         else app1\<lparr>sceneControllerRef := Some sc1,
                                   debugText := ''Gesture: Tracking...''\<rparr>)
                  in Inr (app2\<lparr>requestRef := Some rafId\<rparr>)))
          else Inr (app1\<lparr>debugText := ''No Hand Detected'', requestRef := Some rafId\<rparr>))))"

text \<open>
  The callbacks of a session: each frame gives the video element's state and the handle
  of the next request. An exception ends the chain of callbacks. A callback that returns
  early (no scene controller) requests no further one; it changes nothing, and neither
  do the remaining frames here.
\<close>

fun predictWebcam_frames :: "App \<Rightarrow> (HTMLVideoElement \<times> nat) list \<Rightarrow> error + App" where
  "predictWebcam_frames app [] = Inr app"
| "predictWebcam_frames app (f # fs) =
     (case predictWebcam app (Some (fst f)) (snd f) of
        Inl e \<Rightarrow> Inl e
      | Inr app' \<Rightarrow> predictWebcam_frames app' fs)"

text \<open>The cleanup of the component, run when it unmounts.\<close>

definition unmount :: "App \<Rightarrow> App" where
  "unmount app =
     (let app1 = (case requestRef app of
                    None \<Rightarrow> app
                  | Some r \<Rightarrow>
                      if r \<noteq> 0 then app\<lparr>cancelledFrames := cancelledFrames app @ [r]\<rparr> else app)
      in case sceneControllerRef app1 of
           None \<Rightarrow> app1
         | Some sc \<Rightarrow> app1\<lparr>sceneControllerRef := Some (cleanup sc)\<rparr>)"

section \<open>The spec's words, and what the claims observe\<close>

text \<open>
  The classifier as the spec words it (section 4.5): below the pinch threshold 0.08 the
  target is the assembled state; otherwise, with an open palm above confidence 0.5 or a
  distance above 0.2, it is the exploded state; otherwise the previous target stays.
\<close>

definition spec_target :: "real \<Rightarrow> bool \<Rightarrow> ParticleState \<Rightarrow> ParticleState" where
  "spec_target distance openPalm previous =
     (if distance < 0.08 then SPHERE
      else if openPalm \<or> distance > 0.2 then EXPLODED
      else previous)"

text \<open>
  The tweens of the morph factor in a log: the transition requests that reach Morph
  State. \<open>trigger_of\<close> is the request for a target.
\<close>

definition morph_tweens :: "effect list \<Rightarrow> effect list" where
  "morph_tweens es = filter (\<lambda>e. case e of GsapToFactor v d ease \<Rightarrow> True | _ \<Rightarrow> False) es"

fun trigger_of :: "ParticleState \<Rightarrow> effect" where
  "trigger_of SPHERE = GsapToFactor 0 0.6 ''power2.inOut''"
| "trigger_of EXPLODED = GsapToFactor 1 0.8 ''power2.out''"

text \<open>
  The requests of a session follow the tracked target: no two in a row are the same, and
  the last one is for the state \<^verbatim>\<open>particleStateRef\<close> holds.
\<close>

definition tweens_follow :: "App \<Rightarrow> bool" where
  "tweens_follow app =
     (case sceneControllerRef app of
        None \<Rightarrow> False
      | Some sc \<Rightarrow> distinct_adj (morph_tweens (effects sc)) \<and>
          (morph_tweens (effects sc) = [] \<or>
           last (morph_tweens (effects sc)) = trigger_of (particleStateRef app)))"

text \<open>Two controller states that differ in the three coordinate arrays at most.\<close>

definition same_scene :: "SceneController \<Rightarrow> SceneController \<Rightarrow> bool" where
  "same_scene s s' \<longleftrightarrow>
     camera s' = camera s \<and> particles s' = particles s \<and>
     explosionFactor s' = explosionFactor s \<and> frameId s' = frameId s \<and>
     effects s' = effects s"




text \<open>
  The stored 3D point of particle \<open>i\<close> in a flat coordinate array, when its three
  coordinates are finite; \<open>Vector3_length\<close> of it is its distance from the origin.
  \<open>in_shell lo hi a i\<close>: that distance lies between \<open>lo\<close> and \<open>hi\<close>.
\<close>

definition stored_point :: "number list \<Rightarrow> nat \<Rightarrow> Vector3 option" where
  "stored_point a i =
     (case a ! (i * 3) of None \<Rightarrow> None | Some x \<Rightarrow>
     (case a ! (i * 3 + 1) of None \<Rightarrow> None | Some y \<Rightarrow>
     (case a ! (i * 3 + 2) of None \<Rightarrow> None | Some z \<Rightarrow> Some \<lparr>vx = x, vy = y, vz = z\<rparr>)))"

definition in_shell :: "real \<Rightarrow> real \<Rightarrow> number list \<Rightarrow> nat \<Rightarrow> bool" where
  "in_shell lo hi a i =
     (case stored_point a i of
        None \<Rightarrow> False
      | Some pt \<Rightarrow> lo \<le> Vector3_length pt \<and> Vector3_length pt \<le> hi)"

text \<open>The same controller but for the contents of the three arrays.\<close>

definition arrays_of :: "SceneController \<Rightarrow> SceneController \<Rightarrow> bool" where
  "arrays_of s s' \<longleftrightarrow>
     same_scene s s' \<and>
     length (spherePositions s') = length (spherePositions s) \<and>
     length (explosionPositions s') = length (explosionPositions s) \<and>
     length (currentPositions s') = length (currentPositions s)"

text \<open>
  The tangent of half the camera's field of view of 75 degrees, and the length of the
  ray \<open>(ratio * tan * (2x - 1), tan * (1 - 2y), - 1)\<close> from the camera through the
  image point \<open>(x, y)\<close>, before it is normalized.
\<close>

definition half_fov_tan :: real where
  "half_fov_tan = tan (pi / 180 * 0.5 * 75)"

definition ray_norm :: "real \<Rightarrow> real \<Rightarrow> real \<Rightarrow> real" where
  "ray_norm ratio x y =
     sqrt ((ratio * half_fov_tan * ((x * 2) - 1)) ^ 2 + (half_fov_tan * (- (y * 2) + 1)) ^ 2 + 1)"

text \<open>What one call of \<^verbatim>\<open>cleanup\<close> asks of the host.\<close>

definition release_requests :: "SceneController \<Rightarrow> effect list" where
  "release_requests s =
     (case frameId s of
        None \<Rightarrow> []
      | Some fid \<Rightarrow> if fid \<noteq> 0 then [CancelAnimationFrame fid] else [])
     @ [RemoveResizeListener, RendererDispose]"

section \<open>Sample inputs\<close>

text \<open>
  A hand of 21 landmarks whose thumb tip and index tip are \<open>d\<close> apart in the image
  plane and \<open>2 * z\<close> apart in depth; a video frame showing it; a running session; a
  controller with given arrays and factor.
\<close>

definition sample_hand :: "real \<Rightarrow> real \<Rightarrow> HandLandmark list" where
  "sample_hand d z =
     replicate 4 \<lparr>lm_x = 0.5, lm_y = 0.5, lm_z = 0\<rparr> @
     [\<lparr>lm_x = 0.5, lm_y = 0.5, lm_z = z\<rparr>] @
     replicate 3 \<lparr>lm_x = 0.5, lm_y = 0.5, lm_z = 0\<rparr> @
     [\<lparr>lm_x = 0.5 + d, lm_y = 0.5, lm_z = - z\<rparr>] @
     replicate 12 \<lparr>lm_x = 0.5, lm_y = 0.5, lm_z = 0\<rparr>"

definition sample_video :: "real \<Rightarrow> real \<Rightarrow> real \<Rightarrow> Category list \<Rightarrow> HTMLVideoElement" where
  "sample_video t d z cats =
     \<lparr>currentTime = t, recognized = \<lparr>landmarks = [sample_hand d z], gestures = [cats]\<rparr>\<rparr>"

definition sample_app :: "ParticleState \<Rightarrow> App" where
  "sample_app st = new_App
     \<lparr>particleStateRef := st, particleState := st,
      sceneControllerRef := Some (new_SceneController (16 / 9) (\<lambda>k. 0) 1),
      visionService := initialize new_VisionService\<rparr>"

definition sample_scene :: "real list \<Rightarrow> real list \<Rightarrow> real \<Rightarrow> SceneController" where
  "sample_scene a e f =
     \<lparr>camera = scene_camera (16 / 9),
      particles = Some \<lparr>rotation_y = 0, rotation_z = 0,
                        material_color = COLOR_CORE, needsUpdate = False\<rparr>,
      spherePositions = map Some a, explosionPositions = map Some e,
      currentPositions = replicate (length a) (Some 0),
      explosionFactor = f, frameId = None, effects = []\<rparr>"

section \<open>Rounding\<close>

text \<open>The binade of a real, and what rounding to a format does there.\<close>

lemma powr_powi: "2 powr real_of_int k = (2::real) powi k"
  by (simp add: powr_real_of_int power_int_def power_one_over inverse_eq_divide)

lemma floor_log2_eq:
  assumes "2 powi k \<le> \<bar>x\<bar>" and "\<bar>x\<bar> < 2 powi (k + 1)"
  shows "\<lfloor>log 2 \<bar>x\<bar>\<rfloor> = k"
proof -
  have "0 < \<bar>x\<bar>" using assms(1) by (smt (verit) zero_less_power_int)
  then show ?thesis
    using assms floor_log_eq_powr_iff [of "\<bar>x\<bar>" 2 k]
    by (simp add: powr_powi [symmetric] add.commute)
qed

lemma floor_log2_bounds:
  assumes "x \<noteq> 0"
  shows "2 powi \<lfloor>log 2 \<bar>x\<bar>\<rfloor> \<le> \<bar>x\<bar>" and "\<bar>x\<bar> < 2 powi (\<lfloor>log 2 \<bar>x\<bar>\<rfloor> + 1)"
  using assms floor_log_eq_powr_iff [of "\<bar>x\<bar>" 2 "\<lfloor>log 2 \<bar>x\<bar>\<rfloor>"]
  by (simp_all add: powr_powi [symmetric] add.commute)

lemma round_even_near: "\<bar>of_int (round_even y) - y\<bar> \<le> 1 / 2"
  unfolding round_even_def Let_def by (auto simp: abs_if) linarith+


lemma round_even_unique:
  assumes "\<bar>y - of_int m\<bar> < 1 / 2"
  shows "round_even y = m"
proof -
  have "\<lfloor>y\<rfloor> = m \<or> \<lfloor>y\<rfloor> = m - 1" using assms by linarith
  then show ?thesis
  proof
    assume f: "\<lfloor>y\<rfloor> = m"
    then have "y - of_int m < 1 / 2" using assms by linarith
    with f show ?thesis by (simp add: round_even_def)
  next
    assume f: "\<lfloor>y\<rfloor> = m - 1"
    then have "y - of_int (m - 1) > 1 / 2" using assms by (simp add: abs_if split: if_splits)
    with f show ?thesis by (simp add: round_even_def Let_def)
  qed
qed


lemma round_to_binade:
  assumes "2 powi k \<le> \<bar>x\<bar>" and "\<bar>x\<bar> < 2 powi (k + 1)"
  shows "round_to p emin emax x =
           (let y = of_int (round_even (x / 2 powi (max k emin - int p + 1)))
                      * 2 powi (max k emin - int p + 1)
            in if 2 powi (emax + 1) \<le> \<bar>y\<bar> then None else Some y)"
proof -
  have "0 < \<bar>x\<bar>" using assms(1) by (smt (verit) zero_less_power_int)
  then have "x \<noteq> 0" by simp
  then show ?thesis
    by (simp add: round_to_def ulp_def floor_log2_eq [OF assms])
qed

lemma round_to_near:
  assumes "2 powi k \<le> \<bar>x\<bar>" and "\<bar>x\<bar> < 2 powi (k + 1)"
    and "\<bar>x / 2 powi (max k emin - int p + 1) - of_int m\<bar> < 1 / 2"
    and "\<bar>real_of_int m * 2 powi (max k emin - int p + 1)\<bar> < 2 powi (emax + 1)"
  shows "round_to p emin emax x = Some (of_int m * 2 powi (max k emin - int p + 1))"
  using assms(4)
  by (simp add: round_to_binade [OF assms(1,2)] round_even_unique [OF assms(3)] Let_def)


lemma round_to_form:
  assumes "round_to p emin emax x = Some y" and "0 < p"
  shows "\<exists>m j. y = of_int m * 2 powi j \<and> \<bar>m\<bar> < 2 ^ p \<and>
           emin - int p + 1 \<le> j \<and> \<bar>y\<bar> < 2 powi (emax + 1)"
proof (cases "x = 0")
  case True
  with assms have "y = of_int 0 * 2 powi (emin - int p + 1)" by (simp add: round_to_def)
  then show ?thesis by (intro exI [of _ 0] exI [of _ "emin - int p + 1"]) simp
next
  case False
  define e where "e = \<lfloor>log 2 \<bar>x\<bar>\<rfloor>"
  define j where "j = max e emin - int p + 1"
  define q :: real where "q = 2 powi j"
  define m where "m = round_even (x / q)"
  have q: "0 < q" by (simp add: q_def)
  have y: "y = of_int m * q" and b: "\<bar>y\<bar> < 2 powi (emax + 1)"
    using assms False
    by (simp_all add: round_to_def ulp_def e_def q_def j_def m_def Let_def split: if_splits)
  have "\<bar>x\<bar> < 2 powi (e + 1)" using floor_log2_bounds(2) [OF False] by (simp add: e_def)
  also have "2 powi (e + 1) \<le> (2::real) powi (j + int p)"
    by (intro power_int_increasing) (simp_all add: j_def)
  also have "\<dots> = 2 ^ p * q" by (simp add: q_def power_int_add)
  finally have "\<bar>x / q\<bar> < 2 ^ p" using q by (simp add: abs_divide field_simps)
  moreover have "\<bar>of_int m - x / q\<bar> \<le> 1 / 2" unfolding m_def by (rule round_even_near)
  ultimately have "\<bar>real_of_int m\<bar> < 2 ^ p + 1 / 2" by linarith
  then have "real_of_int \<bar>m\<bar> < real_of_int (2 ^ p) + 1 / 2" by simp
  then have m: "\<bar>m\<bar> \<le> 2 ^ p" by linarith
  have j: "emin - int p + 1 \<le> j" by (simp add: j_def)
  show ?thesis
  proof (cases "\<bar>m\<bar> = 2 ^ p")
    case False
    with m have "\<bar>m\<bar> < 2 ^ p" by simp
    with j y b show ?thesis unfolding q_def by blast
  next
    case True
    obtain p' where p': "p = Suc p'" using assms(2) by (cases p) simp_all
    define m' where "m' = sgn m * 2 ^ p'"
    have "m = sgn m * \<bar>m\<bar>" by (simp add: sgn_mult_abs)
    then have "m = m' * 2" by (simp add: True p' m'_def)
    then have "y = of_int m' * 2 powi (j + 1)"
      by (simp add: y q_def power_int_add)
    moreover have "\<bar>m'\<bar> < 2 ^ p"
      using True by (auto simp: m'_def p' abs_mult abs_sgn_eq)
    moreover have "emin - int p + 1 \<le> j + 1" using j by simp
    ultimately show ?thesis using b by blast
  qed
qed


lemma round_to_finite:
  assumes "\<bar>x\<bar> \<le> 2 powi emax" and "0 < p" and "emin \<le> emax"
  shows "\<exists>y. round_to p emin emax x = Some y"
proof (cases "x = 0")
  case True
  then show ?thesis by (simp add: round_to_def)
next
  case False
  define e where "e = \<lfloor>log 2 \<bar>x\<bar>\<rfloor>"
  define q :: real where "q = 2 powi (max e emin - int p + 1)"
  define y where "y = of_int (round_even (x / q)) * q"
  have q: "0 < q" by (simp add: q_def)
  have "2 powi e \<le> \<bar>x\<bar>" using floor_log2_bounds(1) [OF False] by (simp add: e_def)
  with assms(1) have "(2::real) powi e \<le> 2 powi emax" by linarith
  then have "e \<le> emax"
    by (smt (verit) power_int_strict_increasing)
  then have "max e emin - int p + 1 \<le> emax" using assms(2,3) by simp
  then have qe: "q \<le> 2 powi emax" unfolding q_def by (intro power_int_increasing) simp_all
  have "\<bar>y - x\<bar> = \<bar>of_int (round_even (x / q)) - x / q\<bar> * q"
  proof -
    have "y - x = (of_int (round_even (x / q)) - x / q) * q"
      using q by (simp add: y_def field_simps)
    then show ?thesis using q by (simp add: abs_mult)
  qed
  also have "\<dots> \<le> 1 / 2 * q"
    using round_even_near [of "x / q"] q by (intro mult_right_mono) simp_all
  finally have "\<bar>y\<bar> \<le> \<bar>x\<bar> + q / 2" by linarith
  also have "\<dots> \<le> 2 powi emax + 2 powi emax / 2" using assms(1) qe by linarith
  also have "\<dots> < 2 powi (emax + 1)" by (simp add: power_int_add)
  finally show ?thesis
    using False by (simp add: round_to_def ulp_def e_def [symmetric] q_def [symmetric]
        y_def [symmetric] Let_def)
qed

lemma powi_lt_exp:
  assumes "(2::real) powi a < 2 powi b"
  shows "a < b"
proof (rule ccontr)
  assume "\<not> a < b"
  then have "(2::real) powi b \<le> 2 powi a" by (intro power_int_increasing) simp_all
  with assms show False by simp
qed


lemma round_even_ge:
  assumes "of_int N \<le> y"
  shows "N \<le> round_even y"
proof -
  have "N \<le> \<lfloor>y\<rfloor>" using assms by linarith
  then show ?thesis by (auto simp: round_even_def Let_def)
qed

text \<open>A value of the format lies on the grid of every binade that reaches it.\<close>

lemma format_grid:
  assumes M: "(M::real) = of_int m * 2 powi j" and m: "\<bar>m\<bar> < 2 ^ p" and j: "emin - int p + 1 \<le> j"
    and e: "2 powi e \<le> \<bar>M\<bar>"
  shows "\<exists>N. M = of_int N * 2 powi (max e emin - int p + 1)"
proof -
  define g where "g = max e emin - int p + 1"
  have "\<bar>M\<bar> = real_of_int \<bar>m\<bar> * 2 powi j" by (simp add: M abs_mult)
  also have "\<dots> < 2 ^ p * 2 powi j"
  proof (intro mult_strict_right_mono)
    have "real_of_int \<bar>m\<bar> < real_of_int (2 ^ p)" using m by linarith
    then show "real_of_int \<bar>m\<bar> < 2 ^ p" by simp
  qed simp
  also have "\<dots> = 2 powi (int p + j)" by (simp add: power_int_add)
  finally have "(2::real) powi e < 2 powi (int p + j)" using e by linarith
  then have "e < int p + j" by (rule powi_lt_exp)
  then have gj: "g \<le> j" using j by (simp add: g_def)
  have "(2::real) ^ nat (j - g) * 2 powi g = 2 powi (j - g) * 2 powi g"
    using gj by (simp add: power_int_def)
  also have "\<dots> = 2 powi j" by (simp add: power_int_add [symmetric])
  finally have "M = of_int (m * 2 ^ nat (j - g)) * 2 powi g" by (simp add: M mult.assoc)
  then show ?thesis unfolding g_def by blast
qed


lemma round_to_nonneg:
  assumes "round_to p emin emax x = Some y" and "0 \<le> x"
  shows "0 \<le> y"
proof (cases "x = 0")
  case True
  with assms show ?thesis by (simp add: round_to_def)
next
  case False
  define q :: real where "q = ulp p emin x"
  have q: "0 < q" by (simp add: q_def ulp_def)
  have y: "y = of_int (round_even (x / q)) * q"
    using assms False by (simp add: round_to_def q_def Let_def split: if_splits)
  have "of_int 0 \<le> x / q" using assms(2) q by simp
  then have "0 \<le> round_even (x / q)" by (rule round_even_ge)
  then show ?thesis using q by (simp add: y)
qed

lemma round_to_ge:
  assumes M: "round_to p emin emax M = Some M" and p: "0 < p" and x: "M \<le> x" and M0: "0 < M"
    and y: "round_to p emin emax x = Some y"
  shows "M \<le> y"
proof -
  have x0: "x \<noteq> 0" "0 < x" using x M0 by simp_all
  define e where "e = \<lfloor>log 2 \<bar>x\<bar>\<rfloor>"
  define g where "g = max e emin - int p + 1"
  define q :: real where "q = 2 powi g"
  have q: "0 < q" by (simp add: q_def)
  have yq: "y = of_int (round_even (x / q)) * q"
    using y x0 by (simp add: round_to_def ulp_def e_def q_def g_def Let_def split: if_splits)
  obtain m j where mj: "M = of_int m * 2 powi j" "\<bar>m\<bar> < 2 ^ p" "emin - int p + 1 \<le> j"
    using round_to_form [OF M p] by blast
  have ex: "2 powi e \<le> x" using floor_log2_bounds(1) [OF x0(1)] x0 by (simp add: e_def)
  show ?thesis
  proof (cases "2 powi e \<le> M")
    case True
    then have "2 powi e \<le> \<bar>M\<bar>" by linarith
    from format_grid [OF mj this] obtain N where N: "M = of_int N * q"
      unfolding q_def g_def by blast
    have "of_int N \<le> x / q" using x q by (simp add: N field_simps)
    then have "N \<le> round_even (x / q)" by (rule round_even_ge)
    then have "real_of_int N \<le> of_int (round_even (x / q))" by linarith
    then show ?thesis using q by (simp add: yq N)
  next
    case False
    show ?thesis
    proof (cases "g \<le> e")
      case True
      have "(2::real) ^ nat (e - g) * q = 2 powi (e - g) * 2 powi g"
        using True by (simp add: power_int_def q_def)
      also have "\<dots> = 2 powi e" by (simp add: power_int_add [symmetric])
      finally have "real_of_int (2 ^ nat (e - g)) * q = 2 powi e" by simp
      then have "of_int (2 ^ nat (e - g)) \<le> x / q" using ex q by (simp add: field_simps)
      then have "2 ^ nat (e - g) \<le> round_even (x / q)" by (rule round_even_ge)
      then have "real_of_int (2 ^ nat (e - g)) \<le> of_int (round_even (x / q))" by linarith
      then have "real_of_int (2 ^ nat (e - g)) * q \<le> y" using q by (simp add: yq)
      then have "2 powi e \<le> y" using \<open>real_of_int (2 ^ nat (e - g)) * q = 2 powi e\<close> by simp
      with False show ?thesis by linarith
    next
      case False
      then have gj: "g = emin - int p + 1" "g \<le> j" using p mj(3) by (auto simp: g_def max_def split: if_splits)
      have "(2::real) ^ nat (j - g) * 2 powi g = 2 powi (j - g) * 2 powi g"
        using gj by (simp add: power_int_def)
      also have "\<dots> = 2 powi j" by (simp add: power_int_add [symmetric])
      finally have N: "M = of_int (m * 2 ^ nat (j - g)) * q" by (simp add: mj(1) mult.assoc q_def)
      have "of_int (m * 2 ^ nat (j - g)) \<le> x / q" using x q by (subst (asm) N) (simp add: field_simps)
      then have "m * 2 ^ nat (j - g) \<le> round_even (x / q)" by (rule round_even_ge)
      then have "real_of_int (m * 2 ^ nat (j - g)) \<le> of_int (round_even (x / q))" by linarith
      then have "real_of_int (m * 2 ^ nat (j - g)) * q \<le> y" using q by (simp add: yq)
      then show ?thesis by (subst N)
    qed
  qed
qed















section \<open>The detector wrapper\<close>

text \<open>
  While the timestamps of the frames do not decrease, the timestamps handed to the
  recognizer increase strictly and stay below the last one seen.
\<close>

lemma detect_frames_inv:
  "sorted (map currentTime videos) \<Longrightarrow>
   sorted_wrt (<) (recognizeCalls vs) \<Longrightarrow>
   (\<forall>t \<in> set (recognizeCalls vs). t \<le> lastVideoTime vs) \<Longrightarrow>
   (recognizeCalls vs \<noteq> [] \<longrightarrow> (\<forall>v \<in> set videos. lastVideoTime vs \<le> currentTime v)) \<Longrightarrow>
   sorted_wrt (<) (recognizeCalls (detect_frames vs videos))"
proof (induction videos arbitrary: vs)
  case Nil
  then show ?case by simp
next
  case (Cons video videos)
  let ?vs' = "snd (detect vs video)"
  have srt: "sorted (map currentTime videos)"
    and le: "\<forall>v \<in> set videos. currentTime video \<le> currentTime v"
    using Cons.prems(1) by auto
  show ?case
  proof (cases "gestureRecognizer vs \<and> currentTime video \<noteq> lastVideoTime vs")
    case False
    then have "?vs' = vs" by (auto simp: detect_def)
    then show ?thesis using Cons.IH [of vs] srt Cons.prems by simp
  next
    case True
    then have vs': "?vs' = vs\<lparr>lastVideoTime := currentTime video,
        recognizeCalls := recognizeCalls vs @ [currentTime video]\<rparr>"
      by (simp add: detect_def)
    have lt: "\<forall>t \<in> set (recognizeCalls vs). t < currentTime video"
    proof
      fix t assume t: "t \<in> set (recognizeCalls vs)"
      then have "recognizeCalls vs \<noteq> []" by auto
      with Cons.prems(4) have "lastVideoTime vs \<le> currentTime video" by simp
      with True have "lastVideoTime vs < currentTime video" by simp
      with Cons.prems(3) t show "t < currentTime video" by fastforce
    qed
    have "sorted_wrt (<) (recognizeCalls (detect_frames ?vs' videos))"
    proof (rule Cons.IH [OF srt])
      show "sorted_wrt (<) (recognizeCalls ?vs')"
        using Cons.prems(2) lt by (simp add: vs' sorted_wrt_append)
      show "\<forall>t \<in> set (recognizeCalls ?vs'). t \<le> lastVideoTime ?vs'"
        using lt by (auto simp: vs')
      show "recognizeCalls ?vs' \<noteq> [] \<longrightarrow> (\<forall>v \<in> set videos. lastVideoTime ?vs' \<le> currentTime v)"
        using le by (simp add: vs')
    qed
    then show ?thesis by simp
  qed
qed

text \<open>
  Claim C8. When the video frame's timestamp has not advanced since the last check,
  \<^verbatim>\<open>detect\<close> skips detection: it returns \<^verbatim>\<open>null\<close> and leaves the service as it was, so
  the recognizer is not invoked. Over the calls of a session whose frame timestamps never
  decrease, no frame (timestamp) is handed to the recognizer twice.
\<close>

theorem detect_skips_unchanged_frame:
  "(currentTime video = lastVideoTime vs \<longrightarrow> detect vs video = (None, vs)) \<and>
   (recognizeCalls vs0 = [] \<and> sorted (map currentTime videos) \<longrightarrow>
      distinct (recognizeCalls (detect_frames vs0 videos)))"
proof (intro conjI impI)
  assume "currentTime video = lastVideoTime vs"
  then show "detect vs video = (None, vs)" by (simp add: detect_def)
next
  assume a: "recognizeCalls vs0 = [] \<and> sorted (map currentTime videos)"
  then have "sorted_wrt (<) (recognizeCalls (detect_frames vs0 videos))"
    by (intro detect_frames_inv) simp_all
  then show "distinct (recognizeCalls (detect_frames vs0 videos))"
    by (simp add: strict_sorted_iff)
qed

theorem detect_skips_unchanged_frame_witness:
  "detect (initialize new_VisionService\<lparr>lastVideoTime := 2\<rparr>)
      \<lparr>currentTime = 2, recognized = \<lparr>landmarks = [], gestures = []\<rparr>\<rparr>
     = (None, initialize new_VisionService\<lparr>lastVideoTime := 2\<rparr>) \<and>
   distinct (recognizeCalls (detect_frames (initialize new_VisionService)
     [\<lparr>currentTime = 0, recognized = \<lparr>landmarks = [], gestures = []\<rparr>\<rparr>,
      \<lparr>currentTime = 0, recognized = \<lparr>landmarks = [], gestures = []\<rparr>\<rparr>,
      \<lparr>currentTime = 1, recognized = \<lparr>landmarks = [], gestures = []\<rparr>\<rparr>])) \<and>
   recognizeCalls (detect_frames (initialize new_VisionService)
     [\<lparr>currentTime = 0, recognized = \<lparr>landmarks = [], gestures = []\<rparr>\<rparr>,
      \<lparr>currentTime = 0, recognized = \<lparr>landmarks = [], gestures = []\<rparr>\<rparr>,
      \<lparr>currentTime = 1, recognized = \<lparr>landmarks = [], gestures = []\<rparr>\<rparr>]) = [0, 1]"
  using detect_skips_unchanged_frame
    [of "\<lparr>currentTime = 2, recognized = \<lparr>landmarks = [], gestures = []\<rparr>\<rparr>"
        "initialize new_VisionService\<lparr>lastVideoTime := 2\<rparr>"
        "initialize new_VisionService"
        "[\<lparr>currentTime = 0, recognized = \<lparr>landmarks = [], gestures = []\<rparr>\<rparr>,
      \<lparr>currentTime = 0, recognized = \<lparr>landmarks = [], gestures = []\<rparr>\<rparr>,
      \<lparr>currentTime = 1, recognized = \<lparr>landmarks = [], gestures = []\<rparr>\<rparr>]"]
  by (simp add: initialize_def new_VisionService_def detect_def)

section \<open>The loops over the particles\<close>

lemma for_loop_rule:
  assumes "P i st"
    and "\<And>j s. i \<le> j \<Longrightarrow> j < n \<Longrightarrow> P j s \<Longrightarrow> P (Suc j) (body j s)"
    and "i \<le> n"
  shows "P n (for_loop n i body st)"
  using assms
proof (induction n i body st rule: for_loop.induct)
  case (1 n i body st)
  show ?case
  proof (cases "i < n")
    case True
    have "P n (for_loop n (Suc i) body (body i st))"
    proof (rule "1.IH" [OF True])
      show "P (Suc i) (body i st)" using "1.prems"(1,2) True by simp
      show "\<And>j s. Suc i \<le> j \<Longrightarrow> j < n \<Longrightarrow> P j s \<Longrightarrow> P (Suc j) (body j s)"
        using "1.prems"(2) by simp
      show "Suc i \<le> n" using True by simp
    qed
    with True show ?thesis by (simp add: for_loop.simps [of n i])
  next
    case False
    with "1.prems"(3) have "i = n" by simp
    with "1.prems"(1) show ?thesis by (simp add: for_loop.simps [of n n])
  qed
qed






lemma animate_positions_frame:
  "same_scene s (animate_positions n f s) \<and>
   spherePositions (animate_positions n f s) = spherePositions s \<and>
   explosionPositions (animate_positions n f s) = explosionPositions s \<and>
   length (currentPositions (animate_positions n f s)) = length (currentPositions s)"
  unfolding animate_positions_def
  by (rule for_loop_rule [where P = "\<lambda>j (s' :: SceneController). same_scene s s' \<and>
        spherePositions s' = spherePositions s \<and> explosionPositions s' = explosionPositions s \<and>
        length (currentPositions s') = length (currentPositions s)"])
     (simp_all add: same_scene_def animate_body_def Let_def)




lemma arrays_of_body:
  assumes "arrays_of s s'"
  shows "arrays_of s (fst (initParticles_body n R E random j (s', c)))"
  using assms by (simp add: arrays_of_def same_scene_def initParticles_body_def Let_def)

lemma initParticles_loop_frame: "arrays_of s (initParticles_loop n R E random s)"
proof -
  let ?P = "\<lambda>(j::nat) (st :: SceneController \<times> nat). arrays_of s (fst st)"
  have "?P n (for_loop n 0 (initParticles_body n R E random) (s, 0))"
  proof (rule for_loop_rule [where P = ?P])
    show "?P 0 (s, 0)" by (simp add: arrays_of_def same_scene_def)
    show "0 \<le> n" by simp
  next
    fix j and st :: "SceneController \<times> nat"
    assume "?P j st"
    then show "?P (Suc j) (initParticles_body n R E random j st)"
      using arrays_of_body [of s "fst st" n R E random j "snd st"] by simp
  qed
  then show ?thesis by (simp add: initParticles_loop_def)
qed

lemma animate_fields:
  assumes "particles s = Some p"
  shows "particles (animate rafId s) =
           Some (p\<lparr>rotation_y := rotation_y p + 0.002, rotation_z := rotation_z p + 0.001,
                   needsUpdate := True,
                   material_color := (if explosionFactor s > 0.5 then 0xe879f9 else 0x8b5cf6)\<rparr>)"
    and "effects (animate rafId s) = effects s @ [ComposerRender]"
    and "frameId (animate rafId s) = Some rafId"
    and "camera (animate rafId s) = updateMatrixWorld (camera s)"
    and "spherePositions (animate rafId s) = spherePositions s"
    and "explosionPositions (animate rafId s) = explosionPositions s"
    and "explosionFactor (animate rafId s) = explosionFactor s"
proof -
  let ?s1 = "s\<lparr>frameId := Some rafId\<rparr>"
  have fr: "same_scene ?s1 (animate_positions PARTICLE_COUNT (explosionFactor s) ?s1)"
    "spherePositions (animate_positions PARTICLE_COUNT (explosionFactor s) ?s1) = spherePositions s"
    "explosionPositions (animate_positions PARTICLE_COUNT (explosionFactor s) ?s1)
       = explosionPositions s"
    using animate_positions_frame [of ?s1 PARTICLE_COUNT "explosionFactor s"] by simp_all
  show "particles (animate rafId s) =
           Some (p\<lparr>rotation_y := rotation_y p + 0.002, rotation_z := rotation_z p + 0.001,
                   needsUpdate := True,
                   material_color := (if explosionFactor s > 0.5 then 0xe879f9 else 0x8b5cf6)\<rparr>)"
    using assms by (simp add: animate_def Let_def composer_render_def)
  show "effects (animate rafId s) = effects s @ [ComposerRender]"
    using assms fr(1) by (simp add: animate_def Let_def composer_render_def same_scene_def)
  show "frameId (animate rafId s) = Some rafId"
    using assms fr(1) by (simp add: animate_def Let_def composer_render_def same_scene_def)
  show "camera (animate rafId s) = updateMatrixWorld (camera s)"
    using assms fr(1) by (simp add: animate_def Let_def composer_render_def same_scene_def)
  show "spherePositions (animate rafId s) = spherePositions s"
    using assms fr(2) by (simp add: animate_def Let_def composer_render_def)
  show "explosionPositions (animate rafId s) = explosionPositions s"
    using assms fr(3) by (simp add: animate_def Let_def composer_render_def)
  show "explosionFactor (animate rafId s) = explosionFactor s"
    using assms fr(1) by (simp add: animate_def Let_def composer_render_def same_scene_def)
qed

lemma new_SceneController_fields:
  "particles (new_SceneController ratio random rafId) =
     Some \<lparr>rotation_y = 0.002, rotation_z = 0.001, material_color = 0x8b5cf6, needsUpdate = True\<rparr>"
  "effects (new_SceneController ratio random rafId) = [AddResizeListener, ComposerRender]"
  "frameId (new_SceneController ratio random rafId) = Some rafId"
  "camera (new_SceneController ratio random rafId) = updateMatrixWorld (scene_camera ratio)"
  "explosionFactor (new_SceneController ratio random rafId) = 0"
proof -
  let ?s0 = "\<lparr>camera = scene_camera ratio,
                particles = None,
                spherePositions = replicate (PARTICLE_COUNT * 3) (Some 0),
                explosionPositions = replicate (PARTICLE_COUNT * 3) (Some 0),
                currentPositions = replicate (PARTICLE_COUNT * 3) (Some 0),
                explosionFactor = 0,
                frameId = None,
                effects = []\<rparr>"
  let ?l = "initParticles_loop PARTICLE_COUNT SPHERE_RADIUS EXPLOSION_RADIUS random ?s0"
  let ?s2 = "?l\<lparr>particles := Some \<lparr>rotation_y = 0, rotation_z = 0,
                            material_color = COLOR_CORE, needsUpdate = False\<rparr>,
               effects := effects ?l @ [AddResizeListener]\<rparr>"
  have new: "new_SceneController ratio random rafId = animate rafId ?s2"
    by (simp add: new_SceneController_def initParticles_def Let_def)
  have fr: "same_scene ?s0 ?l"
    using initParticles_loop_frame [of ?s0] by (simp add: arrays_of_def)
  have p: "particles ?s2 = Some \<lparr>rotation_y = 0, rotation_z = 0,
                            material_color = COLOR_CORE, needsUpdate = False\<rparr>"
    by simp
  show "particles (new_SceneController ratio random rafId) =
     Some \<lparr>rotation_y = 0.002, rotation_z = 0.001, material_color = 0x8b5cf6, needsUpdate = True\<rparr>"
    unfolding new animate_fields(1) [OF p]
    using fr by (simp add: same_scene_def)
  show "effects (new_SceneController ratio random rafId) = [AddResizeListener, ComposerRender]"
    unfolding new animate_fields(2) [OF p] using fr by (simp add: same_scene_def)
  show "frameId (new_SceneController ratio random rafId) = Some rafId"
    unfolding new animate_fields(3) [OF p] by simp
  show "camera (new_SceneController ratio random rafId) = updateMatrixWorld (scene_camera ratio)"
    unfolding new animate_fields(4) [OF p] using fr by (simp add: same_scene_def)
  show "explosionFactor (new_SceneController ratio random rafId) = 0"
    unfolding new animate_fields(7) [OF p] using fr by (simp add: same_scene_def)
qed

section \<open>The interpolation of a frame\<close>














section \<open>The colour of a frame\<close>

text \<open>
  Claim C7. A frame of \<^verbatim>\<open>animate\<close> on a controller with its particle cloud sets the
  material's colour to \<open>0xe879f9\<close> when the morph factor exceeds 0.5 and to \<open>0x8b5cf6\<close>
  otherwise, and to nothing else. The constructor leaves a controller with its particle
  cloud, and a frame keeps it.
\<close>

theorem animate_color_threshold:
  "(particles s = Some p \<longrightarrow>
      (\<exists>p'. particles (animate rafId s) = Some p' \<and>
         material_color p' = (if explosionFactor s > 0.5 then 0xe879f9 else 0x8b5cf6) \<and>
         (material_color p' = 0xe879f9 \<or> material_color p' = 0x8b5cf6))) \<and>
   particles (new_SceneController ratio random rafId0) \<noteq> None"
proof (intro conjI impI)
  assume "particles s = Some p"
  from animate_fields(1) [OF this, of rafId]
  show "\<exists>p'. particles (animate rafId s) = Some p' \<and>
         material_color p' = (if explosionFactor s > 0.5 then 0xe879f9 else 0x8b5cf6) \<and>
         (material_color p' = 0xe879f9 \<or> material_color p' = 0x8b5cf6)"
    by simp
next
  show "particles (new_SceneController ratio random rafId0) \<noteq> None"
    by (simp add: new_SceneController_fields)
qed

theorem animate_color_threshold_witness:
  "(\<exists>p'. particles (animate 2 (sample_scene [1, 2, 3] [3, 6, 10] 0.5)) = Some p' \<and>
      material_color p' = 0x8b5cf6) \<and>
   (\<exists>p'. particles (animate 2 (sample_scene [1, 2, 3] [3, 6, 10] 0.51)) = Some p' \<and>
      material_color p' = 0xe879f9) \<and>
   (\<exists>p'. particles (animate 2 (new_SceneController (16 / 9) (\<lambda>k. 0) 1)) = Some p' \<and>
      material_color p' = 0x8b5cf6)"
proof -
  have p: "particles (sample_scene a e f) = Some \<lparr>rotation_y = 0, rotation_z = 0,
                        material_color = COLOR_CORE, needsUpdate = False\<rparr>"
    and f: "explosionFactor (sample_scene a e f) = f" for a e f
    by (simp_all add: sample_scene_def)
  show ?thesis
    using animate_color_threshold [THEN conjunct1, rule_format,
        OF p [of "[1, 2, 3]" "[3, 6, 10]" "0.5"], where rafId = 2]
      animate_color_threshold [THEN conjunct1, rule_format,
        OF p [of "[1, 2, 3]" "[3, 6, 10]" "0.51"], where rafId = 2]
      animate_color_threshold [THEN conjunct1, rule_format,
        OF new_SceneController_fields(1) [of "16 / 9" "\<lambda>k. 0" 1], where rafId = 2]
    by (auto simp: f new_SceneController_fields)
qed

section \<open>The gesture classifier\<close>











lemma sample_hand_nth:
  "length (sample_hand d z) = 21"
  "lm_x (sample_hand d z ! 4) = 0.5" "lm_y (sample_hand d z ! 4) = 0.5"
  "lm_x (sample_hand d z ! 8) = 0.5 + d" "lm_y (sample_hand d z ! 8) = 0.5"
  by (simp_all add: sample_hand_def eval_nat_numeral)



lemma pinch_distance_sample: "0 \<le> d \<Longrightarrow> pinch_distance (sample_hand d z) = d"
  by (simp add: pinch_distance_def Let_def sample_hand_nth)

text \<open>
  Claim C10. Two frames with the same timestamp whose detector results agree on the
  gesture categories and on the \<open>x\<close> and \<open>y\<close> of every landmark, and differ in the \<open>z\<close>
  of landmarks in any way, give the same result of \<^verbatim>\<open>predictWebcam\<close>: the same target
  state, the same status string, the same requests. The pinch distance of the first
  hand is the same as well.
\<close>

theorem predictWebcam_ignores_z:
  assumes "currentTime v1 = currentTime v2"
    and "gestures (recognized v1) = gestures (recognized v2)"
    and "map (map (\<lambda>p. (lm_x p, lm_y p))) (landmarks (recognized v1)) =
         map (map (\<lambda>p. (lm_x p, lm_y p))) (landmarks (recognized v2))"
  shows "predictWebcam app (Some v1) rafId = predictWebcam app (Some v2) rafId \<and>
         (\<forall>lms1 lms2 r1 r2. landmarks (recognized v1) = lms1 # r1 \<and>
            landmarks (recognized v2) = lms2 # r2 \<and> 9 < length lms1 \<longrightarrow>
            pinch_distance lms1 = pinch_distance lms2)"
proof -
  have len: "length (landmarks (recognized v1)) = length (landmarks (recognized v2))"
    using assms(3) by (metis length_map)
  have tips: "length lms1 = length lms2 \<and>
      (\<forall>i < length lms1. lm_x (lms1 ! i) = lm_x (lms2 ! i) \<and> lm_y (lms1 ! i) = lm_y (lms2 ! i))"
    if "landmarks (recognized v1) = lms1 # r1" "landmarks (recognized v2) = lms2 # r2"
    for lms1 lms2 r1 r2
  proof -
    from assms(3) that have m: "map (\<lambda>p. (lm_x p, lm_y p)) lms1 = map (\<lambda>p. (lm_x p, lm_y p)) lms2"
      by simp
    then have l: "length lms1 = length lms2" by (metis length_map)
    have "lm_x (lms1 ! i) = lm_x (lms2 ! i) \<and> lm_y (lms1 ! i) = lm_y (lms2 ! i)"
      if "i < length lms1" for i
    proof -
      have "map (\<lambda>p. (lm_x p, lm_y p)) lms1 ! i = map (\<lambda>p. (lm_x p, lm_y p)) lms2 ! i"
        using m by simp
      then show ?thesis using that l by simp
    qed
    with l show ?thesis by blast
  qed
  have dist: "pinch_distance lms1 = pinch_distance lms2"
    if "landmarks (recognized v1) = lms1 # r1" "landmarks (recognized v2) = lms2 # r2"
      "9 < length lms1" for lms1 lms2 r1 r2
    using tips [OF that(1,2)] that(3) by (simp add: pinch_distance_def Let_def)
  have palm: "isOpenPalm (recognized v1) = isOpenPalm (recognized v2)"
    using assms(2) by (simp add: isOpenPalm_def)
  have det: "fst (detect vs v1) = None \<longleftrightarrow> fst (detect vs v2) = None"
    "snd (detect vs v1) = snd (detect vs v2)"
    "fst (detect vs v1) = Some res1 \<Longrightarrow> res1 = recognized v1"
    "fst (detect vs v2) = Some res2 \<Longrightarrow> res2 = recognized v2"
    for vs res1 res2
    using assms(1) by (auto simp: detect_def split: if_splits)
  have "predictWebcam app (Some v1) rafId = predictWebcam app (Some v2) rafId"
  proof (cases "sceneControllerRef app")
    case None
    then show ?thesis by (simp add: predictWebcam_def)
  next
    case (Some sc)
    show ?thesis
    proof (cases "fst (detect (visionService app) v1)")
      case None
      with det(1) [of "visionService app"] have "fst (detect (visionService app) v2) = None"
        by simp
      with None Some det(2) [of "visionService app"] show ?thesis
        by (simp add: predictWebcam_def Let_def)
    next
      case (Some res1)
      with det(1) [of "visionService app"] obtain res2 where
        r2: "fst (detect (visionService app) v2) = Some res2" by auto
      have e1: "res1 = recognized v1" and e2: "res2 = recognized v2"
        using det(3) [OF Some] det(4) [OF r2] by simp_all
      show ?thesis
      proof (cases "landmarks (recognized v1)")
        case Nil
        with len have "landmarks (recognized v2) = []" by simp
        with Nil Some r2 e1 e2 \<open>sceneControllerRef app = Some sc\<close> det(2) [of "visionService app"]
        show ?thesis by (simp add: predictWebcam_def Let_def)
      next
        case (Cons lms1 r1)
        with len obtain lms2 r2' where c2: "landmarks (recognized v2) = lms2 # r2'"
          by (cases "landmarks (recognized v2)") simp_all
        note t = tips [OF Cons c2]
        show ?thesis
        proof (cases "length lms1 \<le> 9")
          case True
          with t Cons c2 Some r2 e1 e2 \<open>sceneControllerRef app = Some sc\<close>
          show ?thesis by (simp add: predictWebcam_def Let_def)
        next
          case False
          then have "9 < length lms1" by simp
          from dist [OF Cons c2 this] t False Cons c2 Some r2 e1 e2 palm
            \<open>sceneControllerRef app = Some sc\<close> det(2) [of "visionService app"]
          show ?thesis by (simp add: predictWebcam_def Let_def)
        qed
      qed
    qed
  qed
  with dist show ?thesis by blast
qed


theorem predictWebcam_ignores_z_witness:
  "predictWebcam (sample_app EXPLODED) (Some (sample_video 0 0.03 0 [])) 2 =
     predictWebcam (sample_app EXPLODED) (Some (sample_video 0 0.03 7 [])) 2 \<and>
   pinch_distance (sample_hand 0.03 0) = pinch_distance (sample_hand 0.03 7) \<and>
   lm_z (sample_hand 0.03 0 ! 4) \<noteq> lm_z (sample_hand 0.03 7 ! 4) \<and>
   lm_z (sample_hand 0.03 0 ! 8) \<noteq> lm_z (sample_hand 0.03 7 ! 8)"
proof -
  have "map (map (\<lambda>p. (lm_x p, lm_y p))) (landmarks (recognized (sample_video 0 0.03 0 []))) =
        map (map (\<lambda>p. (lm_x p, lm_y p))) (landmarks (recognized (sample_video 0 0.03 7 [])))"
    by (simp add: sample_video_def sample_hand_def)
  from predictWebcam_ignores_z [OF _ _ this, of "sample_app EXPLODED" 2]
  have "predictWebcam (sample_app EXPLODED) (Some (sample_video 0 0.03 0 [])) 2 =
          predictWebcam (sample_app EXPLODED) (Some (sample_video 0 0.03 7 [])) 2"
    and "pinch_distance (sample_hand 0.03 0) = pinch_distance (sample_hand 0.03 7)"
    by (simp_all add: sample_video_def sample_hand_nth)
  moreover have "lm_z (sample_hand 0.03 0 ! 4) \<noteq> lm_z (sample_hand 0.03 7 ! 4)"
    "lm_z (sample_hand 0.03 0 ! 8) \<noteq> lm_z (sample_hand 0.03 7 ! 8)"
    by (simp_all add: sample_hand_def eval_nat_numeral)
  ultimately show ?thesis by simp
qed

section \<open>Transition requests\<close>

lemma morph_tweens_updateHandPosition [simp]:
  "morph_tweens (effects (updateHandPosition sc x y)) = morph_tweens (effects sc)"
  by (simp add: updateHandPosition_def morph_tweens_def split: option.splits)

lemma morph_tweens_triggerAssembly [simp]:
  "morph_tweens (effects (triggerAssembly sc)) = morph_tweens (effects sc) @ [trigger_of SPHERE]"
  by (simp add: triggerAssembly_def morph_tweens_def)

lemma morph_tweens_triggerExplosion [simp]:
  "morph_tweens (effects (triggerExplosion sc)) = morph_tweens (effects sc) @ [trigger_of EXPLODED]"
  by (simp add: triggerExplosion_def morph_tweens_def)

lemma trigger_of_inject [simp]: "trigger_of a = trigger_of b \<longleftrightarrow> a = b"
  by (cases a; cases b) simp_all

lemma predictWebcam_step:
  assumes "sceneControllerRef app = Some sc"
    and "predictWebcam app (Some video) rafId = Inr app'"
  shows "\<exists>sc'. sceneControllerRef app' = Some sc' \<and>
           morph_tweens (effects sc') = morph_tweens (effects sc) @
             (if particleStateRef app' = particleStateRef app then []
              else [trigger_of (particleStateRef app')])"
  using assms
  by (cases "particleStateRef app")
     (auto simp: predictWebcam_def Let_def split: option.splits if_splits)



lemma tweens_follow_step:
  assumes "tweens_follow app" and "predictWebcam app (Some video) rafId = Inr app'"
  shows "tweens_follow app'"
proof -
  from assms(1) obtain sc where sc: "sceneControllerRef app = Some sc"
    and adj: "distinct_adj (morph_tweens (effects sc))"
    and lst: "morph_tweens (effects sc) = [] \<or>
           last (morph_tweens (effects sc)) = trigger_of (particleStateRef app)"
    by (auto simp: tweens_follow_def split: option.splits)
  from predictWebcam_step [OF sc assms(2)] obtain sc' where
    sc': "sceneControllerRef app' = Some sc'"
    and tw: "morph_tweens (effects sc') = morph_tweens (effects sc) @
             (if particleStateRef app' = particleStateRef app then []
              else [trigger_of (particleStateRef app')])"
    by blast
  show ?thesis
  proof (cases "particleStateRef app' = particleStateRef app")
    case True
    with sc' tw adj lst show ?thesis by (simp add: tweens_follow_def)
  next
    case False
    with sc' tw adj lst show ?thesis
      by (auto simp: tweens_follow_def distinct_adj_append_iff)
  qed
qed

lemma tweens_follow_frames:
  "tweens_follow app \<Longrightarrow> predictWebcam_frames app frames = Inr app' \<Longrightarrow> tweens_follow app'"
proof (induction frames arbitrary: app)
  case Nil
  then show ?case by simp
next
  case (Cons f fs)
  from Cons.prems(2) obtain app1 where
    s1: "predictWebcam app (Some (fst f)) (snd f) = Inr app1"
    and rest: "predictWebcam_frames app1 fs = Inr app'"
    by (auto split: sum.splits)
  from tweens_follow_step [OF Cons.prems(1) s1] have "tweens_follow app1" .
  from Cons.IH [OF this rest] show ?case .
qed

text \<open>
  Claim C6. A callback requests a transition of the morph factor only when the target it
  computed differs from the tracked one, and then exactly one, for the new target. Two
  callbacks in a row that end in the same target \<open>T\<close>, starting from another target,
  request one transition together. Over the callbacks of a session that starts with no
  request logged, no two requests in a row are for the same target.
\<close>

theorem tween_only_on_change:
  "(sceneControllerRef app = Some sc \<and> predictWebcam app (Some video) rafId = Inr app' \<longrightarrow>
      (\<exists>sc'. sceneControllerRef app' = Some sc' \<and>
         morph_tweens (effects sc') = morph_tweens (effects sc) @
           (if particleStateRef app' = particleStateRef app then []
            else [trigger_of (particleStateRef app')]))) \<and>
   (sceneControllerRef a0 = Some sc0 \<and>
    predictWebcam a0 (Some v1) r1 = Inr a1 \<and> predictWebcam a1 (Some v2) r2 = Inr a2 \<and>
    particleStateRef a0 \<noteq> T \<and> particleStateRef a1 = T \<and> particleStateRef a2 = T \<longrightarrow>
      (\<exists>sc2. sceneControllerRef a2 = Some sc2 \<and>
         morph_tweens (effects sc2) = morph_tweens (effects sc0) @ [trigger_of T])) \<and>
   (sceneControllerRef b0 = Some sc0' \<and> morph_tweens (effects sc0') = [] \<and>
    predictWebcam_frames b0 frames = Inr b1 \<longrightarrow>
      (\<exists>sc1. sceneControllerRef b1 = Some sc1 \<and> distinct_adj (morph_tweens (effects sc1))))"
proof (intro conjI impI)
  assume "sceneControllerRef app = Some sc \<and> predictWebcam app (Some video) rafId = Inr app'"
  then show "\<exists>sc'. sceneControllerRef app' = Some sc' \<and>
         morph_tweens (effects sc') = morph_tweens (effects sc) @
           (if particleStateRef app' = particleStateRef app then []
            else [trigger_of (particleStateRef app')])"
    using predictWebcam_step by blast
next
  assume a: "sceneControllerRef a0 = Some sc0 \<and>
    predictWebcam a0 (Some v1) r1 = Inr a1 \<and> predictWebcam a1 (Some v2) r2 = Inr a2 \<and>
    particleStateRef a0 \<noteq> T \<and> particleStateRef a1 = T \<and> particleStateRef a2 = T"
  then obtain sc1 where sc1: "sceneControllerRef a1 = Some sc1"
    and t1: "morph_tweens (effects sc1) = morph_tweens (effects sc0) @ [trigger_of T]"
    using predictWebcam_step [of a0 sc0 v1 r1 a1] by auto
  from a sc1 obtain sc2 where "sceneControllerRef a2 = Some sc2"
    and "morph_tweens (effects sc2) = morph_tweens (effects sc1)"
    using predictWebcam_step [of a1 sc1 v2 r2 a2] by auto
  with t1 show "\<exists>sc2. sceneControllerRef a2 = Some sc2 \<and>
         morph_tweens (effects sc2) = morph_tweens (effects sc0) @ [trigger_of T]"
    by simp
next
  assume b: "sceneControllerRef b0 = Some sc0' \<and> morph_tweens (effects sc0') = [] \<and>
    predictWebcam_frames b0 frames = Inr b1"
  then have "tweens_follow b0" by (simp add: tweens_follow_def)
  with b have "tweens_follow b1" using tweens_follow_frames by blast
  then show "\<exists>sc1. sceneControllerRef b1 = Some sc1 \<and> distinct_adj (morph_tweens (effects sc1))"
    by (auto simp: tweens_follow_def split: option.splits)
qed

lemma sample_predict:
  assumes "0 \<le> d" and "gestureRecognizer vs" and "t \<noteq> lastVideoTime vs"
    and "sceneControllerRef app = Some sc"
    and "visionService app = vs"
  shows "\<exists>app' sc'. predictWebcam app (Some (sample_video t d z [])) r = Inr app' \<and>
           particleStateRef app' = spec_target d False (particleStateRef app) \<and>
           gestureRecognizer (visionService app') \<and>
           lastVideoTime (visionService app') = t \<and>
           sceneControllerRef app' = Some sc'"
  using assms
  by (simp add: predictWebcam_def sample_video_def detect_def pinch_distance_sample
      sample_hand_nth Let_def PINCH_THRESHOLD_def isOpenPalm_def spec_target_def)

theorem tween_only_on_change_witness:
  "\<exists>a2 sc2. predictWebcam_frames (sample_app SPHERE)
       [(sample_video 0 0.25 0 [], 2), (sample_video 1 0.25 0 [], 3)] = Inr a2 \<and>
     sceneControllerRef a2 = Some sc2 \<and>
     morph_tweens (effects sc2) = [GsapToFactor 1 0.8 ''power2.out''] \<and>
     distinct_adj (morph_tweens (effects sc2))"
proof -
  let ?sc0 = "new_SceneController (16 / 9) (\<lambda>k. 0) 1"
  let ?f1 = "sample_video 0 0.25 0 []" and ?f2 = "sample_video 1 0.25 0 []"
  have sc0: "sceneControllerRef (sample_app SPHERE) = Some ?sc0"
    and ref0: "particleStateRef (sample_app SPHERE) = SPHERE"
    and vs0: "gestureRecognizer (visionService (sample_app SPHERE))"
      "0 \<noteq> lastVideoTime (visionService (sample_app SPHERE))"
    by (simp_all add: sample_app_def new_App_def initialize_def new_VisionService_def)
  have tw0: "morph_tweens (effects ?sc0) = []"
    by (simp add: new_SceneController_fields morph_tweens_def)
  from sample_predict [OF _ vs0 sc0 refl, of "0.25" 0 2] obtain a1 sc1 where
    a1: "predictWebcam (sample_app SPHERE) (Some ?f1) 2 = Inr a1"
    and ref1: "particleStateRef a1 = EXPLODED"
    and vs1: "gestureRecognizer (visionService a1)" "1 \<noteq> lastVideoTime (visionService a1)"
    and sc1: "sceneControllerRef a1 = Some sc1"
    by (auto simp: spec_target_def ref0)
  from sample_predict [OF _ vs1 sc1 refl, of "0.25" 0 3] obtain a2 sc2' where
    a2: "predictWebcam a1 (Some ?f2) 3 = Inr a2"
    and ref2: "particleStateRef a2 = EXPLODED"
    by (auto simp: spec_target_def ref1)
  have fr: "predictWebcam_frames (sample_app SPHERE) [(?f1, 2), (?f2, 3)] = Inr a2"
    using a1 a2 by simp
  note t = tween_only_on_change
    [where app = "sample_app SPHERE" and sc = ?sc0 and video = ?f1 and rafId = 2 and app' = a1
       and ?a0.0 = "sample_app SPHERE" and ?sc0.0 = ?sc0 and ?v1.0 = ?f1 and ?r1.0 = 2
       and ?a1.0 = a1 and ?v2.0 = ?f2 and ?r2.0 = 3 and ?a2.0 = a2 and T = EXPLODED
       and ?b0.0 = "sample_app SPHERE" and sc0' = ?sc0 and frames = "[(?f1, 2), (?f2, 3)]"
       and ?b1.0 = a2]
  from t [THEN conjunct1] sc0 a1 ref0 ref1 tw0
  have "\<exists>sc'. sceneControllerRef a1 = Some sc' \<and>
          morph_tweens (effects sc') = [GsapToFactor 1 0.8 ''power2.out'']"
    by simp
  from t [THEN conjunct2, THEN conjunct1] sc0 a1 a2 ref0 ref1 ref2 tw0
  obtain sc2 where s2: "sceneControllerRef a2 = Some sc2"
    and tw2: "morph_tweens (effects sc2) = [GsapToFactor 1 0.8 ''power2.out'']"
    by auto
  from t [THEN conjunct2, THEN conjunct2] sc0 tw0 fr s2
  have "distinct_adj (morph_tweens (effects sc2))" by simp
  with fr s2 tw2 show ?thesis by blast
qed

section \<open>The spatial mapper\<close>

lemma half_fov_tan_pos: "0 < half_fov_tan"
  unfolding half_fov_tan_def
  by (rule tan_gt_zero) (simp_all add: field_simps pi_gt_zero)

lemma ray_norm_ge_1: "1 \<le> ray_norm ratio x y"
  unfolding ray_norm_def by (subst real_sqrt_ge_1_iff) simp

lemma frustum_inverse:
  assumes "x \<noteq> 0" "y \<noteq> 0" "d \<noteq> (0::real)"
  shows "Matrix4_multiply
           [1 / x, 0, 0, 0,  0, 1 / y, 0, 0,  0, 0, 0, 1 / d,  a / x, b / y, - 1, c / d]
           [x, 0, 0, 0,  0, y, 0, 0,  a, b, c, - 1,  0, 0, d, 0] = Matrix4_identity"
    and "Matrix4_multiply
           [x, 0, 0, 0,  0, y, 0, 0,  a, b, c, - 1,  0, 0, d, 0]
           [1 / x, 0, 0, 0,  0, 1 / y, 0, 0,  0, 0, 0, 1 / d,  a / x, b / y, - 1, c / d]
         = Matrix4_identity"
  using assms
  by (simp_all add: Matrix4_multiply_def Matrix4_identity_def
      upt_rec [of _ "numeral _"] upt_rec [of 0])

lemma perspective_inverse:
  assumes "l \<noteq> r" "t \<noteq> b" "n \<noteq> 0" "f \<noteq> 0" "n \<noteq> f"
  shows "Matrix4_multiply (makePerspectiveInverse l r t b n f) (makePerspective l r t b n f)
           = Matrix4_identity"
    and "Matrix4_multiply (makePerspective l r t b n f) (makePerspectiveInverse l r t b n f)
           = Matrix4_identity"
proof -
  have "2 * n / (r - l) \<noteq> 0" "2 * n / (t - b) \<noteq> 0" "(- 2 * f * n) / (f - n) \<noteq> 0"
    using assms by simp_all
  from frustum_inverse [OF this]
  show "Matrix4_multiply (makePerspectiveInverse l r t b n f) (makePerspective l r t b n f)
           = Matrix4_identity"
    and "Matrix4_multiply (makePerspective l r t b n f) (makePerspectiveInverse l r t b n f)
           = Matrix4_identity"
    unfolding makePerspective_def makePerspectiveInverse_def Let_def by blast+
qed

lemma scene_camera_matrices:
  "projectionMatrixInverse (updateMatrixWorld (scene_camera r)) =
     [r * half_fov_tan, 0, 0, 0,  0, half_fov_tan, 0, 0,  0, 0, 0, - 4.995,  0, 0, - 1, 5.005]"
  "matrixWorld (updateMatrixWorld (scene_camera r)) =
     [1, 0, 0, 0,  0, 1, 0, 0,  0, 0, 1, 0,  0, 0, 8, 1]"
  "cam_position (updateMatrixWorld (scene_camera r)) = \<lparr>vx = 0, vy = 0, vz = 8\<rparr>"
  by (simp_all add: scene_camera_def new_PerspectiveCamera_def updateProjectionMatrix_def
      makePerspectiveInverse_def Let_def half_fov_tan_def updateMatrixWorld_def
      makeTranslation_def)

lemma scene_camera_frustum:
  assumes "0 < r"
  shows "projectionMatrix (scene_camera r) =
           makePerspective (- (0.1 * r * half_fov_tan)) (0.1 * r * half_fov_tan)
             (0.1 * half_fov_tan) (- (0.1 * half_fov_tan)) 0.1 100"
    and "- (0.1 * r * half_fov_tan) \<noteq> 0.1 * r * half_fov_tan"
    and "0.1 * half_fov_tan \<noteq> - (0.1 * half_fov_tan)"
  using assms half_fov_tan_pos
  by (simp_all add: scene_camera_def new_PerspectiveCamera_def updateProjectionMatrix_def
      Let_def half_fov_tan_def algebra_simps)

lemma normalize_scaled:
  assumes "0 < k"
  shows "normalize \<lparr>vx = p * k, vy = q * k, vz = - k\<rparr> =
           \<lparr>vx = p / sqrt (p ^ 2 + q ^ 2 + 1), vy = q / sqrt (p ^ 2 + q ^ 2 + 1),
            vz = - 1 / sqrt (p ^ 2 + q ^ 2 + 1)\<rparr>"
proof -
  let ?L = "sqrt (p ^ 2 + q ^ 2 + 1)"
  have L: "0 < ?L" by (simp add: add_pos_nonneg add_nonneg_pos)
  have "(p * k) * (p * k) + (q * k) * (q * k) + (- k) * (- k) = k ^ 2 * (p ^ 2 + q ^ 2 + 1)"
    by (simp add: power2_eq_square algebra_simps)
  then have len: "Vector3_length \<lparr>vx = p * k, vy = q * k, vz = - k\<rparr> = k * ?L"
    using assms by (simp add: Vector3_length_def real_sqrt_mult)
  have "k * ?L \<noteq> 0" using assms L by simp
  then show ?thesis
    using assms L by (simp add: normalize_def len divideScalar_def multiplyScalar_def)
qed

lemma hand_ray_scene_camera:
  "hand_ray (updateMatrixWorld (scene_camera r)) x y =
     Some \<lparr>vx = r * half_fov_tan * ((x * 2) - 1) / ray_norm r x y,
           vy = half_fov_tan * (- (y * 2) + 1) / ray_norm r x y,
           vz = - 1 / ray_norm r x y\<rparr>"
proof -
  let ?cam = "updateMatrixWorld (scene_camera r)"
  define k :: real where "k = 400 / 1003"
  define p where "p = r * half_fov_tan * ((x * 2) - 1)"
  define q where "q = half_fov_tan * (- (y * 2) + 1)"
  have k: "0 < k" by (simp add: k_def)
  have u: "unproject (Vector3_set ((x * 2) - 1) (- (y * 2) + 1) 0.5) ?cam =
             Some \<lparr>vx = p * k, vy = q * k, vz = - k + 8\<rparr>"
    by (simp add: unproject_def applyMatrix4_def js_div_def scene_camera_matrices
        Vector3_set_def k_def p_def q_def)
  have s: "Vector3_sub \<lparr>vx = p * k, vy = q * k, vz = - k + 8\<rparr> (cam_position ?cam) =
             \<lparr>vx = p * k, vy = q * k, vz = - k\<rparr>"
    by (simp add: Vector3_sub_def scene_camera_matrices)
  have "hand_ray ?cam x y = Some (normalize \<lparr>vx = p * k, vy = q * k, vz = - k\<rparr>)"
    unfolding hand_ray_def u by (simp only: option.case s)
  also have "normalize \<lparr>vx = p * k, vy = q * k, vz = - k\<rparr> =
      \<lparr>vx = p / sqrt (p ^ 2 + q ^ 2 + 1), vy = q / sqrt (p ^ 2 + q ^ 2 + 1),
       vz = - 1 / sqrt (p ^ 2 + q ^ 2 + 1)\<rparr>"
    by (rule normalize_scaled [OF k])
  also have "sqrt (p ^ 2 + q ^ 2 + 1) = ray_norm r x y"
    by (simp add: ray_norm_def p_def q_def)
  finally show ?thesis by (simp add: p_def q_def)
qed

lemma hand_pos_scene_camera:
  "hand_pos (updateMatrixWorld (scene_camera r)) x y =
     Some \<lparr>vx = 8 * r * half_fov_tan * ((x * 2) - 1),
           vy = 8 * half_fov_tan * (- (y * 2) + 1),
           vz = 0\<rparr>"
proof -
  have L: "0 < ray_norm r x y" using ray_norm_ge_1 [of r x y] by simp
  then show ?thesis
    by (simp add: hand_pos_def hand_ray_scene_camera scene_camera_matrices js_div_def
        Vector3_add_def multiplyScalar_def)
qed

lemma handleResize_camera:
  assumes "camera s = updateMatrixWorld (scene_camera ratio)"
  shows "camera (handleResize ratio' s) = updateMatrixWorld (scene_camera ratio')"
  using assms
  by (simp add: handleResize_def scene_camera_def new_PerspectiveCamera_def
      updateProjectionMatrix_def updateMatrixWorld_def Let_def)

lemma updateHandPosition_scene_camera:
  assumes "camera s = updateMatrixWorld (scene_camera ratio)" and "particles s = Some p"
  shows "effects (updateHandPosition s x y) = effects s @
           [GsapToPosition \<lparr>vx = 8 * ratio * half_fov_tan * ((x * 2) - 1),
                            vy = 8 * half_fov_tan * (- (y * 2) + 1), vz = 0\<rparr>]"
  using assms by (simp add: updateHandPosition_def hand_pos_scene_camera)

text \<open>
  Claim C4. With the controller's camera (at \<open>z = 8\<close>, any positive aspect ratio) and
  the particle cloud in place, \<^verbatim>\<open>updateHandPosition\<close> for an input \<open>(x, y)\<close> unprojects
  the clip-space point \<open>(2x - 1, - 2y + 1, 0.5)\<close>, normalizes the ray from the camera to
  it, and requests a tween to \<open>cameraPosition + t * rayDirection\<close> with
  \<open>t = - cameraZ / rayDirection.z\<close>, a point of the plane \<open>z = 0\<close>. The input
  \<open>(0.5, 0.5)\<close> maps to the origin.
\<close>

theorem updateHandPosition_maps:
  assumes "0 < ratio"
    and "camera s = updateMatrixWorld (scene_camera ratio)"
    and "particles s = Some p"
  shows "\<exists>vec dir t.
           unproject (Vector3_set ((x * 2) - 1) (- (y * 2) + 1) 0.5) (camera s) = Some vec \<and>
           dir = normalize (Vector3_sub vec (cam_position (camera s))) \<and>
           vz dir \<noteq> 0 \<and>
           t = - vz (cam_position (camera s)) / vz dir \<and>
           effects (updateHandPosition s x y) = effects s @
             [GsapToPosition (Vector3_add (cam_position (camera s)) (multiplyScalar dir t))] \<and>
           vz (Vector3_add (cam_position (camera s)) (multiplyScalar dir t)) = 0 \<and>
           (x = 0.5 \<and> y = 0.5 \<longrightarrow>
              Vector3_add (cam_position (camera s)) (multiplyScalar dir t)
                = \<lparr>vx = 0, vy = 0, vz = 0\<rparr>)"
proof -
  let ?cam = "updateMatrixWorld (scene_camera ratio)"
  let ?pos = "\<lparr>vx = 8 * ratio * half_fov_tan * ((x * 2) - 1),
               vy = 8 * half_fov_tan * (- (y * 2) + 1), vz = 0\<rparr>"
  have L: "0 < ray_norm ratio x y" using ray_norm_ge_1 [of ratio x y] by simp
  from hand_ray_scene_camera [of ratio x y] obtain vec where
    u: "unproject (Vector3_set ((x * 2) - 1) (- (y * 2) + 1) 0.5) ?cam = Some vec"
    and d: "normalize (Vector3_sub vec (cam_position ?cam)) =
       \<lparr>vx = ratio * half_fov_tan * ((x * 2) - 1) / ray_norm ratio x y,
        vy = half_fov_tan * (- (y * 2) + 1) / ray_norm ratio x y,
        vz = - 1 / ray_norm ratio x y\<rparr>"
    by (auto simp: hand_ray_def split: option.splits)
  let ?dir = "normalize (Vector3_sub vec (cam_position ?cam))"
  let ?t = "- vz (cam_position ?cam) / vz ?dir"
  have z: "vz ?dir \<noteq> 0" using L unfolding d by simp
  have pos: "Vector3_add (cam_position ?cam) (multiplyScalar ?dir ?t) = ?pos"
    unfolding d using L by (simp add: scene_camera_matrices Vector3_add_def multiplyScalar_def)
  have e: "effects (updateHandPosition s x y) = effects s @ [GsapToPosition ?pos]"
    by (rule updateHandPosition_scene_camera [OF assms(2,3)])
  have c: "x = 0.5 \<and> y = 0.5 \<longrightarrow> ?pos = \<lparr>vx = 0, vy = 0, vz = 0\<rparr>" by simp
  have "unproject (Vector3_set ((x * 2) - 1) (- (y * 2) + 1) 0.5) ?cam = Some vec \<and>
           ?dir = normalize (Vector3_sub vec (cam_position ?cam)) \<and>
           vz ?dir \<noteq> 0 \<and>
           ?t = - vz (cam_position ?cam) / vz ?dir \<and>
           effects (updateHandPosition s x y) = effects s @
             [GsapToPosition (Vector3_add (cam_position ?cam) (multiplyScalar ?dir ?t))] \<and>
           vz (Vector3_add (cam_position ?cam) (multiplyScalar ?dir ?t)) = 0 \<and>
           (x = 0.5 \<and> y = 0.5 \<longrightarrow>
              Vector3_add (cam_position ?cam) (multiplyScalar ?dir ?t)
                = \<lparr>vx = 0, vy = 0, vz = 0\<rparr>)"
    unfolding pos using u z e c by simp
  then show ?thesis unfolding assms(2) by blast
qed

theorem updateHandPosition_maps_witness:
  "effects (updateHandPosition (new_SceneController (16 / 9) (\<lambda>k. 0) 1) 0.5 0.5) =
     [AddResizeListener, ComposerRender, GsapToPosition \<lparr>vx = 0, vy = 0, vz = 0\<rparr>]"
proof -
  let ?s = "new_SceneController (16 / 9) (\<lambda>k. 0) 1"
  have "(0::real) < 16 / 9" by simp
  from updateHandPosition_maps [OF this new_SceneController_fields(4) [of "16 / 9" "\<lambda>k. 0" 1]
      new_SceneController_fields(1) [of "16 / 9" "\<lambda>k. 0" 1], where x = "0.5" and y = "0.5"]
  show ?thesis by (auto simp: new_SceneController_fields)
qed






section \<open>Teardown\<close>

lemma cleanup_eq: "cleanup s = s\<lparr>effects := effects s @ release_requests s\<rparr>"
  by (simp add: cleanup_def release_requests_def Let_def split: option.splits)

text \<open>
  Against claim C9 as stated: \<^verbatim>\<open>cleanup\<close> twice on a freshly constructed controller
  cancels the frame callback twice and disposes the renderer twice.
\<close>

theorem cleanup_twice_counterexample:
  "effects (cleanup (cleanup (new_SceneController (16 / 9) (\<lambda>k. 0) 1))) =
     [AddResizeListener, ComposerRender,
      CancelAnimationFrame 1, RemoveResizeListener, RendererDispose,
      CancelAnimationFrame 1, RemoveResizeListener, RendererDispose] \<and>
   effects (cleanup (cleanup (new_SceneController (16 / 9) (\<lambda>k. 0) 1))) \<noteq>
     effects (cleanup (new_SceneController (16 / 9) (\<lambda>k. 0) 1))"
  by (simp add: cleanup_eq release_requests_def new_SceneController_fields)

text \<open>
  Claim C9, amended. \<^verbatim>\<open>cleanup\<close> keeps no record of having run: every call cancels the
  stored frame handle (when one is set), removes the resize listener and disposes the
  renderer, so two calls make each request twice. When no controller was ever created,
  unmounting the component calls no \<^verbatim>\<open>cleanup\<close>; otherwise it calls it once.
\<close>

theorem cleanup_releases_each_time:
  "cleanup s = s\<lparr>effects := effects s @ release_requests s\<rparr> \<and>
   cleanup (cleanup s) = s\<lparr>effects := effects s @ release_requests s @ release_requests s\<rparr> \<and>
   (sceneControllerRef app = None \<longrightarrow> sceneControllerRef (unmount app) = None) \<and>
   (sceneControllerRef app = Some s \<longrightarrow> sceneControllerRef (unmount app) = Some (cleanup s))"
  by (auto simp: cleanup_eq release_requests_def unmount_def Let_def split: option.splits)

theorem cleanup_releases_each_time_witness:
  "effects (cleanup (new_SceneController (16 / 9) (\<lambda>k. 0) 1)) =
     [AddResizeListener, ComposerRender,
      CancelAnimationFrame 1, RemoveResizeListener, RendererDispose] \<and>
   sceneControllerRef (unmount new_App) = None \<and>
   sceneControllerRef (unmount (sample_app SPHERE)) =
     Some (cleanup (new_SceneController (16 / 9) (\<lambda>k. 0) 1))"
proof -
  let ?s = "new_SceneController (16 / 9) (\<lambda>k. 0) 1"
  have a: "sceneControllerRef new_App = None"
    and b: "sceneControllerRef (sample_app SPHERE) = Some ?s"
    by (simp_all add: new_App_def sample_app_def)
  from cleanup_releases_each_time [of ?s new_App] cleanup_releases_each_time [of ?s "sample_app SPHERE"]
    a b
  have "cleanup ?s = ?s\<lparr>effects := effects ?s @ release_requests ?s\<rparr>"
    and "sceneControllerRef (unmount new_App) = None"
    and "sceneControllerRef (unmount (sample_app SPHERE)) = Some (cleanup ?s)"
    by simp_all
  then show ?thesis
    by (simp add: release_requests_def new_SceneController_fields)
qed

end
